theory Spec2Isabelle
  imports Complex_Main "HOL-Library.Multiset"
begin

section \<open>Conventions of the embedding\<close>

text \<open>
  This is a shallow embedding of four parts of quantify-scheduler: the waveform helpers
  (\<^verbatim>\<open>helpers/waveforms.py\<close>), the reserved square pulse
  (\<^verbatim>\<open>backends/qblox/non_generic.py\<close>), the operation strategy factory
  (\<^verbatim>\<open>backends/qblox/operation_handling/factory.py\<close>) and the stitched pulse builder
  (\<^verbatim>\<open>operations/stitched_pulse.py\<close>), followed by the properties proved of them.
  The instruction sequence of the stitched square pulse strategy, whose module is not
  among the sources, is modelled from the specification.

  Python floats are modelled as \<^typ>\<open>real\<close> and numpy's complex samples as
  \<^typ>\<open>complex\<close>: arithmetic is the exact one, rounding is not modelled. A numpy array
  is a list. Every \<^verbatim>\<open>raise\<close> of the source is a value \<open>Inl e\<close> of a sum type.
  Names that start with an underscore in the source lose it here, and a parameter whose
  name is taken by a constant is renamed (\<open>append\<close> is \<open>app\<close>, \<open>duration\<close> is \<open>dur\<close>).
\<close>

subsection \<open>Python values, dictionaries and exceptions\<close>

text \<open>
  \<^verbatim>\<open>quantify_scheduler.enums.BinMode\<close>, the accumulation policy of an acquisition. The
  enumeration is not among the sources; the factory names its member \<^verbatim>\<open>APPEND\<close>.
\<close>

datatype BinMode = BinMode_APPEND | BinMode_AVERAGE

text \<open>The values that the info dictionaries of an operation hold.\<close>

datatype pyval =
    PNone
  | PStr string
  | PInt int
  | PFloat real
  | PBool bool
  | PBinMode BinMode

type_synonym pydict = "string \<rightharpoonup> pyval"

text \<open>
  An f-string of the source is kept as the list of its parts, in order: the literal text
  and the interpolated values. How Python prints a float or a dictionary is not modelled.
\<close>

datatype fpart =
    Lit string
  | Num real
  | Val pyval
  | Dict pydict

type_synonym message = "fpart list"

datatype error =
    ValueError message
  | RuntimeError message
  | KeyError string
  | TypeError
  | ZeroDivisionError

text \<open>\<^verbatim>\<open>d[k]\<close> raises \<^verbatim>\<open>KeyError\<close> on a missing key; \<^verbatim>\<open>k in d\<close> tests the key.\<close>

definition getitem :: "pydict \<Rightarrow> string \<Rightarrow> error + pyval" where
  "getitem d k = (case d k of None \<Rightarrow> Inl (KeyError k) | Some v \<Rightarrow> Inr v)"

definition contains :: "pydict \<Rightarrow> string \<Rightarrow> bool" where
  "contains d k = (d k \<noteq> None)"

section \<open>Waveform utilities: definitions\<close>

text \<open>\<^verbatim>\<open>np.zeros(n)\<close>: a negative dimension raises \<^verbatim>\<open>ValueError\<close>.\<close>

definition np_zeros :: "int \<Rightarrow> error + ('a::zero) list" where
  "np_zeros n =
     (if n < 0 then Inl (ValueError [Lit ''negative dimensions are not allowed''])
      else Inr (replicate (nat n) 0))"

text \<open>
  Modelled from the spec: \<^verbatim>\<open>math.closest_number_ceil\<close> is called by
  \<^verbatim>\<open>resize_waveform\<close> but its module is not among the sources. The specification
  has the waveform padded "to the next multiple of granularity", so the helper returns
  the least multiple of \<open>multiple\<close> that is not below \<open>number\<close>, that is
  \<open>ceil(number / multiple) * multiple\<close>. A zero \<open>multiple\<close> divides by zero.
\<close>

definition closest_number_ceil :: "int \<Rightarrow> int \<Rightarrow> error + int" where
  "closest_number_ceil number multiple =
     (if multiple = 0 then Inl ZeroDivisionError
      else Inr (\<lceil>real_of_int number / real_of_int multiple\<rceil> * multiple))"

text \<open>
  \<^verbatim>\<open>resize_waveform(waveform, granularity)\<close>. Python's \<^verbatim>\<open>%\<close> on integers is the
  floored remainder, as \<open>mod\<close> on \<^typ>\<open>int\<close> is, and raises on a zero divisor.
\<close>

definition resize_waveform :: "('a::zero) list \<Rightarrow> int \<Rightarrow> error + 'a list" where
  "resize_waveform waveform granularity =
     (let size = int (length waveform) in
      if size = 0 then np_zeros granularity
      else if granularity = 0 then Inl ZeroDivisionError
      else if size mod granularity = 0 then Inr waveform
      else
        (case closest_number_ceil size granularity of
           Inl e \<Rightarrow> Inl e
         | Inr c \<Rightarrow>
            (case np_zeros (c - size) of
               Inl e \<Rightarrow> Inl e
             | Inr zs \<Rightarrow> Inr (waveform @ zs))))"

text \<open>
  \<^verbatim>\<open>np.max\<close> of an empty array raises \<^verbatim>\<open>ValueError\<close> (the reduction has no
  identity).
\<close>

definition np_max :: "real list \<Rightarrow> error + real" where
  "np_max xs =
     (if xs = [] then
        Inl (ValueError
          [Lit ''zero-size array to reduction operation maximum which has no identity''])
      else Inr (Max (set xs)))"

text \<open>
  Element-wise division of an array by a scalar, in exact arithmetic. numpy does not
  raise on a zero divisor: it fills the array with \<^verbatim>\<open>inf\<close> and \<^verbatim>\<open>nan\<close> and
  emits a warning. The model makes that outcome visible as \<open>Inl ZeroDivisionError\<close>,
  so that its absence can be stated. The division that rounds is \<open>np_divide_float64\<close>
  below.
\<close>

definition np_divide :: "real list \<Rightarrow> real \<Rightarrow> error + real list" where
  "np_divide xs a = (if a = 0 then Inl ZeroDivisionError else Inr (map (\<lambda>x. x / a) xs))"

text \<open>\<^verbatim>\<open>re + 1.0j * im\<close> on two arrays of the same shape.\<close>

definition np_complex :: "real list \<Rightarrow> real list \<Rightarrow> complex list" where
  "np_complex re im = map2 (\<lambda>r i. complex_of_real r + \<i> * complex_of_real i) re im"

text \<open>
  \<^verbatim>\<open>normalize_waveform_data(data)\<close>, in exact arithmetic: the quotients are not
  rounded. This is the function as the reserved square pulse is stated about, where
  only the signs and the structure of its result matter.
\<close>

definition normalize_waveform_data :: "complex list \<Rightarrow> error + (complex list \<times> real \<times> real)" where
  "normalize_waveform_data data =
     (case np_max (map (\<lambda>z. \<bar>Re z\<bar>) data) of
        Inl e \<Rightarrow> Inl e
      | Inr amp_real \<Rightarrow>
     (case np_max (map (\<lambda>z. \<bar>Im z\<bar>) data) of
        Inl e \<Rightarrow> Inl e
      | Inr amp_imag \<Rightarrow>
     (case (if amp_real \<noteq> 0 then np_divide (map Re data) amp_real
            else Inr (replicate (length data) 0)) of
        Inl e \<Rightarrow> Inl e
      | Inr norm_data_re \<Rightarrow>
     (case (if amp_imag \<noteq> 0 then np_divide (map Im data) amp_imag
            else Inr (replicate (length data) 0)) of
        Inl e \<Rightarrow> Inl e
      | Inr norm_data_im \<Rightarrow>
          Inr (np_complex norm_data_re norm_data_im, amp_real, amp_imag)))))"

text \<open>
  Auxiliary, for the proofs: the rescaling of one path as \<^verbatim>\<open>normalize_waveform_data\<close>
  computes it, on the real or on the imaginary parts.
\<close>

definition norm_path :: "real list \<Rightarrow> real list" where
  "norm_path xs =
     (if Max (set (map abs xs)) \<noteq> 0 then map (\<lambda>x. x / Max (set (map abs xs))) xs
      else replicate (length xs) 0)"

subsection \<open>Rounding to float64\<close>

text \<open>
  numpy's \<^verbatim>\<open>float64\<close> is IEEE 754 binary64: the result of a division or of a
  multiplication is the exact result rounded to the nearest number with a significand
  of 53 bits, a tie going to the even significand. \<open>pow2 e\<close> is \<open>2\<close> to the power
  \<open>e\<close>. \<open>exponent x\<close> is the binary exponent of \<open>x\<close>, the largest \<open>e\<close> with
  \<open>pow2 e \<le> \<bar>x\<bar>\<close>, and \<open>- 1022\<close> below the normal range (subnormal numbers share
  that exponent). \<open>float64 x\<close> rounds \<open>x\<close> to that grid, whose spacing is
  \<open>pow2 (exponent x - 52)\<close>. Overflow to infinity is not modelled: the quotients
  below are at most one in magnitude and their products with the peak at most about
  the peak.
\<close>

definition pow2 :: "int \<Rightarrow> real" where
  "pow2 e = (if 0 \<le> e then 2 ^ nat e else 1 / 2 ^ nat (- e))"

definition exponent :: "real \<Rightarrow> int" where
  "exponent x = Max (insert (- 1022) {e \<in> {- 1022..1024}. pow2 e \<le> \<bar>x\<bar>})"

definition round_half_even :: "real \<Rightarrow> int" where
  "round_half_even z =
     (let f = \<lfloor>z\<rfloor>; d = z - real_of_int f
      in if d < 1 / 2 then f else if 1 / 2 < d then f + 1 else if even f then f else f + 1)"

definition float64 :: "real \<Rightarrow> real" where
  "float64 x =
     real_of_int (round_half_even (x / pow2 (exponent x - 52))) * pow2 (exponent x - 52)"

text \<open>
  \<^verbatim>\<open>normalize_waveform_data(data)\<close> with the divisions that numpy performs: every
  quotient is rounded. Taking the absolute value and the maximum is exact, and so is
  \<^verbatim>\<open>re + 1.0j * im\<close> on finite numbers.
\<close>

definition np_divide_float64 :: "real list \<Rightarrow> real \<Rightarrow> error + real list" where
  "np_divide_float64 xs a =
     (if a = 0 then Inl ZeroDivisionError else Inr (map (\<lambda>x. float64 (x / a)) xs))"

definition normalize_waveform_data_float64 ::
  "complex list \<Rightarrow> error + (complex list \<times> real \<times> real)" where
  "normalize_waveform_data_float64 data =
     (case np_max (map (\<lambda>z. \<bar>Re z\<bar>) data) of
        Inl e \<Rightarrow> Inl e
      | Inr amp_real \<Rightarrow>
     (case np_max (map (\<lambda>z. \<bar>Im z\<bar>) data) of
        Inl e \<Rightarrow> Inl e
      | Inr amp_imag \<Rightarrow>
     (case (if amp_real \<noteq> 0 then np_divide_float64 (map Re data) amp_real
            else Inr (replicate (length data) 0)) of
        Inl e \<Rightarrow> Inl e
      | Inr norm_data_re \<Rightarrow>
     (case (if amp_imag \<noteq> 0 then np_divide_float64 (map Im data) amp_imag
            else Inr (replicate (length data) 0)) of
        Inl e \<Rightarrow> Inl e
      | Inr norm_data_im \<Rightarrow>
          Inr (np_complex norm_data_re norm_data_im, amp_real, amp_imag)))))"

text \<open>Auxiliary, for the proofs: the rounded rescaling of one path.\<close>

definition norm_path_float64 :: "real list \<Rightarrow> real list" where
  "norm_path_float64 xs =
     (if Max (set (map abs xs)) \<noteq> 0
      then map (\<lambda>x. float64 (x / Max (set (map abs xs)))) xs
      else replicate (length xs) 0)"

text \<open>The doubles nearest to \<open>0.1\<close> and to \<open>2.9\<close>.\<close>

definition double_0_1 :: real where
  "double_0_1 = 7205759403792794 / 2 ^ 56"

definition double_2_9 :: real where
  "double_2_9 = 6530219459687219 / 2 ^ 51"

section \<open>The reserved square pulse: definitions\<close>

text \<open>
  \<^verbatim>\<open>np.linspace(start, stop, num)\<close>: \<open>num\<close> evenly spaced points with both ends
  included; a negative \<open>num\<close> raises.
\<close>

definition np_linspace :: "real \<Rightarrow> real \<Rightarrow> int \<Rightarrow> error + real list" where
  "np_linspace start stop num =
     (if num < 0 then Inl (ValueError [Lit ''Number of samples must be non-negative''])
      else if num = 1 then Inr [start]
      else Inr (map (\<lambda>i. start + real i * (stop - start) / real (nat num - 1)) [0..<nat num]))"

text \<open>Python's \<^verbatim>\<open>int(x)\<close> on a float truncates towards zero.\<close>

definition py_int :: "real \<Rightarrow> int" where
  "py_int x = (if 0 \<le> x then \<lfloor>x\<rfloor> else \<lceil>x\<rceil>)"

text \<open>
  numpy orders complex numbers lexicographically, the real part first; this is the
  order that \<^verbatim>\<open>np.sum(wf_data) < 0\<close> uses on the complex sum.
\<close>

definition np_less :: "complex \<Rightarrow> complex \<Rightarrow> bool" where
  "np_less a b = (Re a < Re b \<or> (Re a = Re b \<and> Im a < Im b))"

text \<open>
  \<^verbatim>\<open>_stitched_square_pulse_waveform_data(data_dict, sampling_rate)\<close>. The constant
  \<^verbatim>\<open>PULSE_STITCHING_DURATION\<close> and the waveform functions that
  \<^verbatim>\<open>exec_waveform_function\<close> dispatches to are not among the sources: the constant is
  the parameter \<open>time_duration\<close>, and \<open>exec_wf\<close> stands for
  \<^verbatim>\<open>exec_waveform_function(data_dict["wf_func"], t, data_dict)\<close> as a function of the
  time points \<open>t\<close>.
\<close>

definition stitched_square_pulse_waveform_data ::
  "real \<Rightarrow> (real list \<Rightarrow> error + complex list) \<Rightarrow> real \<Rightarrow> error + (complex list \<times> real \<times> real)"
where
  "stitched_square_pulse_waveform_data time_duration exec_wf sampling_rate =
     (case np_linspace 0 time_duration (py_int (time_duration * sampling_rate)) of
        Inl e \<Rightarrow> Inl e
      | Inr t \<Rightarrow>
     (case exec_wf t of
        Inl e \<Rightarrow> Inl e
      | Inr wf_data0 \<Rightarrow>
     (case normalize_waveform_data wf_data0 of
        Inl e \<Rightarrow> Inl e
      | Inr (wf_data, amp_i, amp_q) \<Rightarrow>
          if np_less (sum_list wf_data) 0
          then Inr (map uminus wf_data, - amp_i, - amp_q)
          else Inr (wf_data, amp_i, amp_q))))"

section \<open>The operation strategy factory: definitions\<close>

text \<open>\<^verbatim>\<open>OpInfo\<close> of \<^verbatim>\<open>backends/types/qblox.py\<close> and its properties.\<close>

record OpInfo =
  name :: string
  data :: pydict
  timing :: real

definition is_acquisition :: "OpInfo \<Rightarrow> bool" where
  "is_acquisition op = (contains (data op) ''acq_channel'' \<or> contains (data op) ''bin_mode'')"

definition is_offset_instruction :: "OpInfo \<Rightarrow> bool" where
  "is_offset_instruction op =
     (contains (data op) ''offset_path_0'' \<or> contains (data op) ''offset_path_1'')"

text \<open>
  \<^verbatim>\<open>self.data.get("instruction", "") == q1asm_instructions.UPDATE_PARAMETERS\<close>; the
  docstring of the property names the instruction: \<^verbatim>\<open>upd_param\<close>.
\<close>

definition is_parameter_update :: "OpInfo \<Rightarrow> bool" where
  "is_parameter_update op =
     ((case data op ''instruction'' of None \<Rightarrow> PStr [] | Some v \<Rightarrow> v) = PStr ''upd_param'')"

text \<open>
  \<^verbatim>\<open>OpInfo.__repr__\<close>: it reads \<^verbatim>\<open>self.duration\<close>, that is
  \<^verbatim>\<open>self.data["duration"]\<close>, and adds it to the start time.
\<close>

definition py_add_real :: "real \<Rightarrow> pyval \<Rightarrow> error + real" where
  "py_add_real x v =
     (case v of
        PFloat y \<Rightarrow> Inr (x + y)
      | PInt n \<Rightarrow> Inr (x + real_of_int n)
      | PBool b \<Rightarrow> Inr (x + (if b then 1 else 0))
      | _ \<Rightarrow> Inl TypeError)"

definition OpInfo_repr :: "OpInfo \<Rightarrow> error + message" where
  "OpInfo_repr op =
     (case getitem (data op) ''duration'' of
        Inl e \<Rightarrow> Inl e
      | Inr duration \<Rightarrow>
     (case py_add_real (timing op) duration of
        Inl e \<Rightarrow> Inl e
      | Inr t_end \<Rightarrow>
          Inr [Lit (if is_acquisition op then ''Acquisition'' else ''Pulse''), Lit '' '',
               Lit (name op), Lit '' (t='', Num (timing op), Lit '' to '', Num t_end,
               Lit ('')'' @ [CHR 0x0A] @ ''data=''), Dict (data op)]))"

datatype IoMode = IoMode_REAL | IoMode_IMAG | IoMode_COMPLEX

text \<open>
  The strategy classes of \<^verbatim>\<open>operation_handling\<close>: an object is the class and the
  arguments of its constructor.
\<close>

datatype strategy =
    SquareAcquisitionStrategy OpInfo
  | WeightedAcquisitionStrategy OpInfo
  | TriggerCountAcquisitionStrategy OpInfo
  | AwgOffsetStrategy OpInfo
  | UpdateParameterStrategy OpInfo
  | NcoPhaseShiftStrategy OpInfo
  | NcoResetClockPhaseStrategy OpInfo
  | NcoSetClockFrequencyStrategy OpInfo
  | IdleStrategy OpInfo
  | StitchedSquarePulseStrategy OpInfo IoMode
  | StaircasePulseStrategy OpInfo IoMode
  | MarkerPulseStrategy OpInfo IoMode
  | GenericPulseStrategy OpInfo IoMode

text \<open>\<^verbatim>\<open>_get_acquisition_strategy(operation_info)\<close>.\<close>

definition get_acquisition_strategy :: "OpInfo \<Rightarrow> error + strategy" where
  "get_acquisition_strategy operation_info =
     (case getitem (data operation_info) ''protocol'' of
        Inl e \<Rightarrow> Inl e
      | Inr protocol \<Rightarrow>
          if protocol \<in> {PStr ''Trace'', PStr ''SSBIntegrationComplex'',
                          PStr ''ThresholdedAcquisition''} then
            (if protocol = PStr ''Trace'' then
               (case getitem (data operation_info) ''bin_mode'' of
                  Inl e \<Rightarrow> Inl e
                | Inr bin_mode \<Rightarrow>
                    if bin_mode = PBinMode BinMode_APPEND then
                      (case OpInfo_repr operation_info of
                         Inl e \<Rightarrow> Inl e
                       | Inr r \<Rightarrow>
                           Inl (ValueError
                             ([Lit (''Trace acquisition does not support APPEND bin mode.''
                                    @ [CHR 0x0A, CHR 0x0A])]
                              @ r @ [Lit '' caused this exception to occur.''])))
                    else Inr (SquareAcquisitionStrategy operation_info))
             else Inr (SquareAcquisitionStrategy operation_info))
          else if protocol = PStr ''WeightedIntegratedComplex'' then
            Inr (WeightedAcquisitionStrategy operation_info)
          else if protocol = PStr ''TriggerCount'' then
            Inr (TriggerCountAcquisitionStrategy operation_info)
          else
            (case OpInfo_repr operation_info of
               Inl e \<Rightarrow> Inl e
             | Inr r \<Rightarrow>
                 Inl (ValueError
                   ([Lit (''Unknown acquisition protocol '' @ [CHR 0x22]), Val protocol,
                     Lit ([CHR 0x22] @ '' encountered in Qblox backend when processing ''
                          @ ''acquisition '')]
                    @ r @ [Lit ''.'']))))"

text \<open>
  \<^verbatim>\<open>_get_pulse_strategy\<close>. The \<^verbatim>\<open>elif instruction_generated_pulses_enabled\<close>
  branch has no \<^verbatim>\<open>else\<close> inside: when neither reserved name matches, control leaves
  the whole \<^verbatim>\<open>if\<close>/\<^verbatim>\<open>elif\<close> chain and reaches the final \<^verbatim>\<open>return\<close>.
\<close>

definition get_pulse_strategy :: "OpInfo \<Rightarrow> bool \<Rightarrow> IoMode \<Rightarrow> error + strategy" where
  "get_pulse_strategy operation_info instruction_generated_pulses_enabled io_mode =
     (if is_offset_instruction operation_info then Inr (AwgOffsetStrategy operation_info)
      else if is_parameter_update operation_info then
        Inr (UpdateParameterStrategy operation_info)
      else
        (case getitem (data operation_info) ''port'' of
           Inl e \<Rightarrow> Inl e
         | Inr port \<Rightarrow>
             if port = PNone then
               (if contains (data operation_info) ''phase_shift'' then
                  Inr (NcoPhaseShiftStrategy operation_info)
                else if contains (data operation_info) ''reset_clock_phase'' then
                  Inr (NcoResetClockPhaseStrategy operation_info)
                else if contains (data operation_info) ''clock_freq_new'' then
                  Inr (NcoSetClockFrequencyStrategy operation_info)
                else Inr (IdleStrategy operation_info))
             else if instruction_generated_pulses_enabled then
               (case getitem (data operation_info) ''wf_func'' of
                  Inl e \<Rightarrow> Inl e
                | Inr wf_func \<Rightarrow>
                    if wf_func = PStr ''quantify_scheduler.waveforms.square'' then
                      Inr (StitchedSquarePulseStrategy operation_info io_mode)
                    else if wf_func = PStr ''quantify_scheduler.waveforms.staircase'' then
                      Inr (StaircasePulseStrategy operation_info io_mode)
                    else Inr (GenericPulseStrategy operation_info io_mode))
             else if name operation_info = ''MarkerPulse'' then
               Inr (MarkerPulseStrategy operation_info io_mode)
             else Inr (GenericPulseStrategy operation_info io_mode)))"

definition get_operation_strategy :: "OpInfo \<Rightarrow> bool \<Rightarrow> IoMode \<Rightarrow> error + strategy" where
  "get_operation_strategy operation_info instruction_generated_pulses_enabled io_mode =
     (if is_acquisition operation_info then get_acquisition_strategy operation_info
      else get_pulse_strategy operation_info instruction_generated_pulses_enabled io_mode)"

text \<open>
  Two operations as the compiler flattens them: a \<^verbatim>\<open>Trace\<close> acquisition in
  \<^verbatim>\<open>APPEND\<close> bin mode, and the pulse info of a \<^verbatim>\<open>MarkerPulse\<close> (which has no
  waveform function) on a port.
\<close>

definition trace_op :: OpInfo where
  "trace_op = \<lparr>name = ''Trace'',
     data = [''protocol'' \<mapsto> PStr ''Trace'', ''bin_mode'' \<mapsto> PBinMode BinMode_APPEND,
             ''acq_channel'' \<mapsto> PInt 0, ''duration'' \<mapsto> PFloat (1 / 10 ^ 6)],
     timing = 0\<rparr>"

definition marker_op :: OpInfo where
  "marker_op = \<lparr>name = ''MarkerPulse'',
     data = [''wf_func'' \<mapsto> PNone, ''t0'' \<mapsto> PFloat 0, ''clock'' \<mapsto> PStr ''digital'',
             ''port'' \<mapsto> PStr ''q0:switch'', ''duration'' \<mapsto> PFloat (1 / 10 ^ 7)],
     timing = 0\<rparr>"

section \<open>The stitched pulse builder: definitions\<close>

subsection \<open>Objects and the store\<close>

text \<open>
  The builder keeps references to \<^verbatim>\<open>Operation\<close> objects, and each operation holds a
  list of references to its pulse info dictionaries, which \<^verbatim>\<open>add_pulse\<close> and
  \<^verbatim>\<open>build\<close> update in place. Whether the caller's objects are touched depends on
  which objects are shared, so objects live in a store: addresses are natural numbers,
  every address below \<open>next_addr\<close> is allocated, and a new object takes the address
  \<open>next_addr\<close>.

  Of a pulse info dictionary the keys that the builder reads or writes
  (\<^verbatim>\<open>t0\<close>, \<^verbatim>\<open>duration\<close>, \<^verbatim>\<open>port\<close>, \<^verbatim>\<open>clock\<close>) are fields;
  \<open>pi_other\<close> holds the remaining keys. The class \<^verbatim>\<open>Operation\<close> is not among
  the sources: the properties that \<^verbatim>\<open>add_pulse\<close> tests are fields of the object.
\<close>

type_synonym addr = nat

record pulse_info =
  pi_t0 :: real
  pi_duration :: real
  pi_port :: "string option"
  pi_clock :: "string option"
  pi_other :: pydict

record Operation =
  op_pulse_info :: "addr list"
  valid_acquisition :: bool
  valid_gate :: bool
  logic_info :: "pydict list"
  has_voltage_offset :: bool

record store =
  operations :: "addr \<Rightarrow> Operation"
  infos :: "addr \<Rightarrow> pulse_info"
  next_addr :: addr

text \<open>The dataclass \<^verbatim>\<open>_VoltageOffsetInfo\<close>; \<open>duration = None\<close> is an open-ended offset.\<close>

record VoltageOffsetInfo =
  path_0 :: real
  path_1 :: real
  t0 :: real
  duration :: "real option"

text \<open>
  A \<^verbatim>\<open>VoltageOffset\<close> operation, as \<^verbatim>\<open>create_operation_from_info\<close> constructs it:
  the keyword arguments of the constructor.
\<close>

record VoltageOffset =
  offset_path_0 :: real
  offset_path_1 :: real
  vo_duration :: real
  vo_port :: "string option"
  vo_clock :: "string option"
  vo_t0 :: real

text \<open>
  The attributes \<^verbatim>\<open>_port\<close>, \<^verbatim>\<open>_clock\<close>, \<^verbatim>\<open>_t0\<close>, \<^verbatim>\<open>_pulses\<close> and
  \<^verbatim>\<open>_offsets\<close> of a \<^verbatim>\<open>StitchedPulseBuilder\<close>, and its constructor.
\<close>

record StitchedPulseBuilder =
  b_port :: "string option"
  b_clock :: "string option"
  b_t0 :: real
  b_pulses :: "addr list"
  b_offsets :: "VoltageOffsetInfo list"

definition new_builder :: "string option \<Rightarrow> string option \<Rightarrow> real \<Rightarrow> StitchedPulseBuilder" where
  "new_builder port clock start =
     \<lparr>b_port = port, b_clock = clock, b_t0 = start, b_pulses = [], b_offsets = []\<rparr>"

definition empty_store :: store where
  "empty_store =
     \<lparr>operations = (\<lambda>_. \<lparr>op_pulse_info = [], valid_acquisition = False, valid_gate = False,
                           logic_info = [], has_voltage_offset = False\<rparr>),
      infos = (\<lambda>_. \<lparr>pi_t0 = 0, pi_duration = 0, pi_port = None, pi_clock = None,
                      pi_other = Map.empty\<rparr>),
      next_addr = 0\<rparr>"

subsection \<open>The end of the operation\<close>

text \<open>Python's \<^verbatim>\<open>max\<close> over an empty sequence raises \<^verbatim>\<open>ValueError\<close>.\<close>

definition py_max :: "real list \<Rightarrow> error + real" where
  "py_max xs =
     (if xs = [] then Inl (ValueError [Lit ''max() arg is an empty sequence''])
      else Inr (Max (set xs)))"

text \<open>\<^verbatim>\<open>offs.duration or 0.0\<close>: \<^verbatim>\<open>None\<close> and \<open>0.0\<close> are both false.\<close>

definition duration_or_zero :: "real option \<Rightarrow> real" where
  "duration_or_zero d = (case d of None \<Rightarrow> 0 | Some x \<Rightarrow> if x = 0 then 0 else x)"

text \<open>
  The generator \<^verbatim>\<open>pulse_info["t0"] + pulse_info["duration"] for op in self._pulses
  for pulse_info in op.data["pulse_info"]\<close>.
\<close>

definition pulse_ends :: "store \<Rightarrow> addr list \<Rightarrow> real list" where
  "pulse_ends h ps =
     concat (map (\<lambda>a. map (\<lambda>r. pi_t0 (infos h r) + pi_duration (infos h r))
                          (op_pulse_info (operations h a))) ps)"

text \<open>The property \<^verbatim>\<open>operation_end\<close>.\<close>

definition operation_end :: "store \<Rightarrow> StitchedPulseBuilder \<Rightarrow> error + real" where
  "operation_end h b =
     (case (if length (b_pulses b) = 0 then Inr 0 else py_max (pulse_ends h (b_pulses b))) of
        Inl e \<Rightarrow> Inl e
      | Inr max_from_pulses \<Rightarrow>
     (case (if length (b_offsets b) = 0 then Inr 0
            else py_max (map (\<lambda>offs. t0 offs + duration_or_zero (duration offs))
                             (b_offsets b))) of
        Inl e \<Rightarrow> Inl e
      | Inr max_from_offsets \<Rightarrow> Inr (max max_from_pulses max_from_offsets)))"

subsection \<open>Adding a voltage offset\<close>

text \<open>
  The loop of \<^verbatim>\<open>_overlaps_with_existing_offsets\<close> over the sorted list: each entry
  but the last is compared with its successor, \<^verbatim>\<open>next_start < this_end\<close> with
  \<^verbatim>\<open>this_end = offs.t0 + (offs.duration or 0.0)\<close>.
\<close>

definition this_end :: "VoltageOffsetInfo \<Rightarrow> real" where
  "this_end offs = t0 offs + duration_or_zero (duration offs)"

fun overlaps_loop :: "VoltageOffsetInfo list \<Rightarrow> bool" where
  "overlaps_loop (offs # nxt # rest) =
     (if t0 nxt < this_end offs then True else overlaps_loop (nxt # rest))"
| "overlaps_loop _ = False"

text \<open>
  \<^verbatim>\<open>_overlaps_with_existing_offsets\<close> copies the list of offsets, appends the new one
  and sorts the copy by start time; Python's sort is stable, as \<open>sort_key\<close> is. The
  builder's own list is not touched.
\<close>

definition overlaps_with_existing_offsets ::
  "StitchedPulseBuilder \<Rightarrow> VoltageOffsetInfo \<Rightarrow> bool" where
  "overlaps_with_existing_offsets b offset =
     overlaps_loop (sort_key t0 (b_offsets b @ [offset]))"

text \<open>
  \<^verbatim>\<open>add_voltage_offset(path_0, path_1, duration, rel_time, append, min_duration)\<close>.
  The result is the outcome of the call and the builder as the call leaves it; the store
  is only read.
\<close>

definition add_voltage_offset ::
  "real \<Rightarrow> real \<Rightarrow> real option \<Rightarrow> real \<Rightarrow> bool \<Rightarrow> real \<Rightarrow> store \<Rightarrow> StitchedPulseBuilder
    \<Rightarrow> (error + unit) \<times> StitchedPulseBuilder" where
  "add_voltage_offset p0 p1 dur rel_time app min_duration h b =
     (case (if app then
              (case operation_end h b of Inl e \<Rightarrow> Inl e | Inr oe \<Rightarrow> Inr (rel_time + oe))
            else Inr rel_time) of
        Inl e \<Rightarrow> (Inl e, b)
      | Inr rel_time1 \<Rightarrow>
          if (case dur of None \<Rightarrow> False | Some d \<Rightarrow> d < min_duration) then
            (Inl (ValueError [Lit ''Minimum duration of a voltage offset is '',
                              Num min_duration, Lit '' ns'']), b)
          else
            (let offset = \<lparr>path_0 = p0, path_1 = p1, t0 = rel_time1, duration = dur\<rparr> in
             if overlaps_with_existing_offsets b offset then
               (Inl (RuntimeError
                  [Lit (''Tried to add offset that overlaps with existing offsets in the ''
                        @ ''StitchedPulse.'')]), b)
             else (Inr (), b\<lparr>b_offsets := b_offsets b @ [offset]\<rparr>)))"

subsection \<open>Adding a pulse\<close>

text \<open>
  \<^verbatim>\<open>copy.deepcopy\<close> of an operation: every pulse info dictionary is copied to a new
  address and the copy of the operation refers to the copies. A dictionary that the
  list refers to twice is copied once (the memo of \<^verbatim>\<open>deepcopy\<close>).
\<close>

fun copy_infos :: "store \<Rightarrow> (addr \<times> addr) list \<Rightarrow> addr list \<Rightarrow> addr list \<times> store" where
  "copy_infos h memo [] = ([], h)"
| "copy_infos h memo (r # rs) =
     (case map_of memo r of
        Some n \<Rightarrow> (let (ns, h1) = copy_infos h memo rs in (n # ns, h1))
      | None \<Rightarrow>
          (let n = next_addr h;
               h1 = h\<lparr>infos := (infos h)(n := infos h r), next_addr := Suc n\<rparr>;
               (ns, h2) = copy_infos h1 ((r, n) # memo) rs
           in (n # ns, h2)))"

definition deepcopy :: "store \<Rightarrow> addr \<Rightarrow> addr \<times> store" where
  "deepcopy h a =
     (let (ns, h1) = copy_infos h [] (op_pulse_info (operations h a));
          n = next_addr h1
      in (n, h1\<lparr>operations := (operations h1)(n := (operations h a)\<lparr>op_pulse_info := ns\<rparr>),
                next_addr := Suc n\<rparr>))"

text \<open>
  The loop \<^verbatim>\<open>for pulse_info in pulse["pulse_info"]: pulse_info["t0"] +=
  self.operation_end\<close>; the property is read anew in every round.
\<close>

fun shift_loop :: "StitchedPulseBuilder \<Rightarrow> addr list \<Rightarrow> store \<Rightarrow> (error + unit) \<times> store" where
  "shift_loop b [] h = (Inr (), h)"
| "shift_loop b (r # rs) h =
     (case operation_end h b of
        Inl e \<Rightarrow> (Inl e, h)
      | Inr oe \<Rightarrow>
          shift_loop b rs
            (h\<lparr>infos := (infos h)(r := (infos h r)\<lparr>pi_t0 := pi_t0 (infos h r) + oe\<rparr>)\<rparr>))"

text \<open>
  \<^verbatim>\<open>add_pulse(pulse, append)\<close>; \<open>pulse\<close> is the address of the caller's operation
  and \<open>app\<close> the argument \<^verbatim>\<open>append\<close>.
  The result is the outcome, the store and the builder as the call leaves them.
\<close>

definition add_pulse ::
  "addr \<Rightarrow> bool \<Rightarrow> store \<Rightarrow> StitchedPulseBuilder
    \<Rightarrow> (error + unit) \<times> store \<times> StitchedPulseBuilder" where
  "add_pulse pulse app h b =
     (if valid_acquisition (operations h pulse) then
        (Inl (RuntimeError
           [Lit (''Cannot add acquisition to StitchedPulse. Please add it directly to ''
                 @ ''the schedule instead.'')]), h, b)
      else if valid_gate (operations h pulse) then
        (Inl (RuntimeError
           [Lit (''Cannot add gate to StitchedPulse. Please add it directly to the ''
                 @ ''schedule instead.'')]), h, b)
      else if length (logic_info (operations h pulse)) > 0 then
        (Inl (RuntimeError
           [Lit (''Cannot add logic element to StitchedPulse. Please add it directly to ''
                 @ ''the schedule instead.'')]), h, b)
      else if has_voltage_offset (operations h pulse) then
        (Inl (RuntimeError
           [Lit (''Cannot use this method to add a voltage offset. Please use ''
                 @ ''`add_voltage_offset` instead.'')]), h, b)
      else
        (let (c, h1) = deepcopy h pulse in
         if app then
           (case shift_loop b (op_pulse_info (operations h1 c)) h1 of
              (Inl e, h2) \<Rightarrow> (Inl e, h2, b)
            | (Inr u, h2) \<Rightarrow> (Inr (), h2, b\<lparr>b_pulses := b_pulses b @ [c]\<rparr>))
         else (Inr (), h1, b\<lparr>b_pulses := b_pulses b @ [c]\<rparr>)))"

subsection \<open>The offset operations of the built pulse\<close>

text \<open>\<^verbatim>\<open>numpy.isclose(a, b)\<close> with its default tolerances \<open>rtol = 1e-5\<close>, \<open>atol = 1e-8\<close>.\<close>

definition isclose :: "real \<Rightarrow> real \<Rightarrow> bool" where
  "isclose a b = (\<bar>a - b\<bar> \<le> 1 / 10 ^ 8 + 1 / 10 ^ 5 * \<bar>b\<bar>)"

definition create_operation_from_info ::
  "StitchedPulseBuilder \<Rightarrow> VoltageOffsetInfo \<Rightarrow> VoltageOffset" where
  "create_operation_from_info b info =
     \<lparr>offset_path_0 = path_0 info, offset_path_1 = path_1 info,
      vo_duration = duration_or_zero (duration info),
      vo_port = b_port b, vo_clock = b_clock b, vo_t0 = t0 info\<rparr>"

text \<open>
  The loop of \<^verbatim>\<open>_build_voltage_offset_operations\<close> over the sorted offsets, from
  index \<open>i\<close> on. The successor is read at \<^verbatim>\<open>self._offsets[i + 1]\<close>, that is, from the
  builder's list in the order of insertion, with the index of the sorted list.
\<close>

fun build_loop ::
  "store \<Rightarrow> StitchedPulseBuilder \<Rightarrow> nat \<Rightarrow> VoltageOffsetInfo list \<Rightarrow> real \<times> real
    \<Rightarrow> VoltageOffset list \<Rightarrow> error + ((real \<times> real) \<times> VoltageOffset list)" where
  "build_loop h b i [] background offset_ops = Inr (background, offset_ops)"
| "build_loop h b i (offset_info # rest) background offset_ops =
     (let offset_ops1 = offset_ops @ [create_operation_from_info b offset_info] in
      case duration offset_info of
        None \<Rightarrow>
          build_loop h b (i + 1) rest (path_0 offset_info, path_1 offset_info) offset_ops1
      | Some d \<Rightarrow>
          (let this_end = t0 offset_info + duration_or_zero (duration offset_info) in
           case operation_end h b of
             Inl e \<Rightarrow> Inl e
           | Inr oe \<Rightarrow>
               (let background1 = (if isclose this_end oe then (0, 0) else background);
                    offset_ops2 =
                      (if i + 1 \<ge> length (b_offsets b)
                          \<or> \<not> isclose (t0 (b_offsets b ! (i + 1))) this_end
                       then offset_ops1 @ [create_operation_from_info b
                              \<lparr>path_0 = fst background1, path_1 = snd background1,
                               t0 = this_end, duration = None\<rparr>]
                       else offset_ops1)
                in build_loop h b (i + 1) rest background1 offset_ops2)))"

text \<open>\<^verbatim>\<open>_build_voltage_offset_operations\<close>.\<close>

definition build_voltage_offset_operations ::
  "store \<Rightarrow> StitchedPulseBuilder \<Rightarrow> error + VoltageOffset list" where
  "build_voltage_offset_operations h b =
     (if length (b_offsets b) = 0 then Inr []
      else
        (case build_loop h b 0 (sort_key t0 (b_offsets b)) (0, 0) [] of
           Inl e \<Rightarrow> Inl e
         | Inr (background, offset_ops) \<Rightarrow>
             if \<not> (isclose (fst background) 0 \<and> isclose (snd background) 0) then
               (case operation_end h b of
                  Inl e \<Rightarrow> Inl e
                | Inr oe \<Rightarrow>
                    Inr (offset_ops @ [create_operation_from_info b
                           \<lparr>path_0 = 0, path_1 = 0, t0 = oe, duration = None\<rparr>]))
             else Inr offset_ops))"

text \<open>
  The reset stream as the specification words it, for comparison with the code: the
  segments in ascending order of start time; after a bounded segment the background
  becomes zero if the segment ends at the end of the operation, and a reset to the
  background is inserted at the segment's end unless the next segment, in that order,
  starts there; a last reset to zero at the end of the operation if the background is
  not zero. \<open>same\<close> is the comparison of two times or values: equality, or
  \<open>isclose\<close>.
\<close>

fun spec_reset_loop ::
  "(real \<Rightarrow> real \<Rightarrow> bool) \<Rightarrow> real \<Rightarrow> StitchedPulseBuilder \<Rightarrow> VoltageOffsetInfo list
    \<Rightarrow> real \<times> real \<Rightarrow> VoltageOffset list \<Rightarrow> (real \<times> real) \<times> VoltageOffset list" where
  "spec_reset_loop same oe b [] background ops = (background, ops)"
| "spec_reset_loop same oe b (seg # rest) background ops =
     (let ops1 = ops @ [create_operation_from_info b seg] in
      case duration seg of
        None \<Rightarrow> spec_reset_loop same oe b rest (path_0 seg, path_1 seg) ops1
      | Some d \<Rightarrow>
          (let seg_end = t0 seg + d;
               background1 = (if same seg_end oe then (0, 0) else background);
               ops2 =
                 (if (case rest of [] \<Rightarrow> True | nxt # rest1 \<Rightarrow> \<not> same (t0 nxt) seg_end)
                  then ops1 @ [create_operation_from_info b
                         \<lparr>path_0 = fst background1, path_1 = snd background1,
                          t0 = seg_end, duration = None\<rparr>]
                  else ops1)
           in spec_reset_loop same oe b rest background1 ops2))"

definition spec_reset_stream ::
  "(real \<Rightarrow> real \<Rightarrow> bool) \<Rightarrow> real \<Rightarrow> StitchedPulseBuilder \<Rightarrow> VoltageOffset list" where
  "spec_reset_stream same oe b =
     (let (background, ops) = spec_reset_loop same oe b (sort_key t0 (b_offsets b)) (0, 0) []
      in if \<not> (same (fst background) 0 \<and> same (snd background) 0)
         then ops @ [create_operation_from_info b
                \<lparr>path_0 = 0, path_1 = 0, t0 = oe, duration = None\<rparr>]
         else ops)"

section \<open>The stitched square pulse strategy: definitions\<close>

text \<open>
  The instructions that the strategy emits, by opcode: \<^verbatim>\<open>set_awg_gain\<close> with the two
  gains and its comment, \<^verbatim>\<open>play\<close> with the two waveform indices and the time,
  \<^verbatim>\<open>move\<close> of a count into a register, the label line \<^verbatim>\<open>stitch{n}:\<close> and
  \<^verbatim>\<open>loop\<close> on a register back to the label \<^verbatim>\<open>@stitch{n}\<close>.
\<close>

datatype instruction =
    SetAwgGain int int string
  | Play nat nat nat
  | Move nat nat
  | StitchLabel nat
  | Loop nat nat

text \<open>The two uses of \<^verbatim>\<open>set_awg_gain\<close>, told apart by their comments.\<close>

definition set_gain :: "string \<Rightarrow> int \<times> int \<Rightarrow> instruction" where
  "set_gain pulse_name gain =
     SetAwgGain (fst gain) (snd gain) (''# setting gain for '' @ pulse_name)"

definition reset_gain :: instruction where
  "reset_gain = SetAwgGain 0 0 ''# set to 0 at end of pulse''"

text \<open>
  Modelled from the spec: \<^verbatim>\<open>StitchedSquarePulseStrategy.insert_qasm\<close>. Its module
  (\<^verbatim>\<open>operation_handling/pulses.py\<close>) is not among the sources; only its test is. The
  specification has the strategy emit a constant-gain instruction, then plays of
  threshold length, as many as fit into the duration (the loop bound equals the integer
  number of threshold-length repetitions; a register-counted loop when there are two or
  more, one play when there is one), then the remainder, if any, outside the loop. Of
  the reset of the gain at the end its design notes say that it is implicit in this
  loop and remainder arithmetic and omitted exactly at multiples of the threshold with
  zero remainder: the reset belongs to the remainder play. The test compares only the
  instructions that were emitted with the rows of its table, so a row may be longer than
  what is emitted. Durations are in samples (one per nanosecond); \<open>pulse_name\<close> is the
  name of the operation, \<open>gain\<close> are the two gain arguments, \<open>idx\<close> the two waveform
  indices, \<open>reg\<close> the loop register and \<open>lbl\<close> the number in the label.
\<close>

definition insert_qasm ::
  "nat \<Rightarrow> string \<Rightarrow> int \<times> int \<Rightarrow> nat \<times> nat \<Rightarrow> nat \<Rightarrow> nat \<Rightarrow> nat \<Rightarrow> instruction list" where
  "insert_qasm threshold pulse_name gain idx reg lbl dur =
     (let repetitions = dur div threshold;
          pulse_time_remaining = dur mod threshold
      in [set_gain pulse_name gain]
         @ (if repetitions > 1 then
              [Move repetitions reg, StitchLabel lbl,
               Play (fst idx) (snd idx) threshold, Loop reg lbl]
            else if repetitions = 1 then [Play (fst idx) (snd idx) threshold]
            else [])
         @ (if pulse_time_remaining > 0 then
              [Play (fst idx) (snd idx) pulse_time_remaining, reset_gain]
            else []))"

section \<open>Example states of the builder\<close>

text \<open>
  A builder that holds one offset of one second from time zero; one that holds an
  open-ended offset; one whose two offsets were added the later one first; and one whose
  two offsets of 4 ns are 4 ns apart. The operations that the first three give rise to. A
  store with one operation at address 0, whose single pulse info dictionary is at
  address 1.
\<close>

definition one_offset :: StitchedPulseBuilder where
  "one_offset = (new_builder (Some ''q0:mw'') (Some ''q0.01'') 0)
     \<lparr>b_offsets := [\<lparr>path_0 = 1 / 2, path_1 = 0, t0 = 0, duration = Some 1\<rparr>]\<rparr>"

definition open_offset :: StitchedPulseBuilder where
  "open_offset = (new_builder (Some ''q0:mw'') (Some ''q0.01'') 0)
     \<lparr>b_offsets := [\<lparr>path_0 = 1 / 4, path_1 = 0, t0 = 0, duration = None\<rparr>]\<rparr>"

definition reversed_offsets :: StitchedPulseBuilder where
  "reversed_offsets = (new_builder (Some ''q0:mw'') (Some ''q0.01'') 0)
     \<lparr>b_offsets := [\<lparr>path_0 = 1 / 2, path_1 = 0, t0 = 1, duration = Some 1\<rparr>,
                    \<lparr>path_0 = 1 / 4, path_1 = 0, t0 = 0, duration = Some 1\<rparr>]\<rparr>"

definition gap_offsets :: StitchedPulseBuilder where
  "gap_offsets = (new_builder (Some ''q0:mw'') (Some ''q0.01'') 0)
     \<lparr>b_offsets := [\<lparr>path_0 = 1 / 2, path_1 = 0, t0 = 0, duration = Some (4 / 10 ^ 9)\<rparr>,
                    \<lparr>path_0 = 1 / 4, path_1 = 0, t0 = 8 / 10 ^ 9,
                     duration = Some (4 / 10 ^ 9)\<rparr>]\<rparr>"

definition reset_op :: "real \<Rightarrow> VoltageOffset" where
  "reset_op t = \<lparr>offset_path_0 = 0, offset_path_1 = 0, vo_duration = 0,
     vo_port = Some ''q0:mw'', vo_clock = Some ''q0.01'', vo_t0 = t\<rparr>"

definition offset_op :: "real \<Rightarrow> real \<Rightarrow> VoltageOffset" where
  "offset_op v t = \<lparr>offset_path_0 = v, offset_path_1 = 0, vo_duration = 1,
     vo_port = Some ''q0:mw'', vo_clock = Some ''q0.01'', vo_t0 = t\<rparr>"

definition caller_info :: pulse_info where
  "caller_info = \<lparr>pi_t0 = 0, pi_duration = 1 / 5, pi_port = Some ''q0:mw'',
     pi_clock = Some ''q0.01'', pi_other = [''amp'' \<mapsto> PFloat (1 / 2)]\<rparr>"

definition caller_operation :: Operation where
  "caller_operation = \<lparr>op_pulse_info = [1], valid_acquisition = False, valid_gate = False,
     logic_info = [], has_voltage_offset = False\<rparr>"

definition caller_store :: store where
  "caller_store = empty_store
     \<lparr>operations := (operations empty_store)(0 := caller_operation),
      infos := (infos empty_store)(1 := caller_info),
      next_addr := 2\<rparr>"

section \<open>Waveform utilities: properties\<close>

subsection \<open>Properties of resizing\<close>

lemma ceiling_multiple_ge:
  fixes n g :: int
  assumes "0 < g"
  shows "n \<le> \<lceil>real_of_int n / real_of_int g\<rceil> * g"
proof -
  have g: "0 < real_of_int g"
    using assms by simp
  have "real_of_int n / real_of_int g \<le> real_of_int \<lceil>real_of_int n / real_of_int g\<rceil>"
    by (rule le_of_int_ceiling)
  then have "real_of_int n \<le> real_of_int \<lceil>real_of_int n / real_of_int g\<rceil> * real_of_int g"
    by (rule iffD1 [OF pos_divide_le_eq [OF g]])
  then have "real_of_int n \<le> real_of_int (\<lceil>real_of_int n / real_of_int g\<rceil> * g)"
    by simp
  then show ?thesis by (simp only: of_int_le_iff)
qed

lemma resize_waveform_returns:
  fixes waveform :: "('a::zero) list"
  assumes "0 < granularity"
  shows "resize_waveform waveform granularity =
    Inr (waveform @ replicate
      (nat (\<lceil>real_of_int (max (int (length waveform)) 1) / real_of_int granularity\<rceil> * granularity)
        - length waveform) 0)"
proof (cases "waveform = []")
  case True
  have "\<lceil>1 / real_of_int granularity\<rceil> = 1"
    using assms by (simp add: ceiling_eq_iff)
  with True assms show ?thesis
    by (simp add: resize_waveform_def np_zeros_def)
next
  case False
  then have pos: "1 \<le> int (length waveform)"
    by (cases waveform) simp_all
  then have mx: "max (int (length waveform)) 1 = int (length waveform)"
    by simp
  show ?thesis
  proof (cases "int (length waveform) mod granularity = 0")
    case True
    then obtain k where k: "int (length waveform) = granularity * k"
      by (auto simp: mod_eq_0_iff_dvd)
    have "real_of_int (int (length waveform)) / real_of_int granularity = real_of_int k"
      using assms k by simp
    then have "\<lceil>real_of_int (int (length waveform)) / real_of_int granularity\<rceil> * granularity
        = int (length waveform)"
      using k by (simp add: mult.commute)
    with True False assms mx show ?thesis
      by (simp add: resize_waveform_def)
  next
    case nz: False
    let ?c = "\<lceil>real_of_int (int (length waveform)) / real_of_int granularity\<rceil> * granularity"
    have ge: "int (length waveform) \<le> ?c"
      using assms by (rule ceiling_multiple_ge)
    then have "nat (?c - int (length waveform)) = nat ?c - length waveform"
      by (simp add: nat_diff_distrib')
    with nz False assms mx ge show ?thesis
      by (simp add: resize_waveform_def np_zeros_def closest_number_ceil_def)
  qed
qed

lemma resize_waveform_fixed:
  fixes r :: "('a::zero) list"
  assumes "0 < granularity" "r \<noteq> []" "int (length r) mod granularity = 0"
  shows "resize_waveform r granularity = Inr r"
  using assms by (simp add: resize_waveform_def)

text \<open>
  Claim C6. For a positive granularity \<^verbatim>\<open>resize_waveform\<close> returns (it does not raise)
  an array of length \<open>ceil(max(len(waveform), 1) / granularity) * granularity\<close>; the
  input samples are its prefix and everything after them is zero; an empty input gives
  exactly \<open>granularity\<close> zeros; and resizing the result again returns it unchanged.
\<close>

theorem resize_waveform_spec:
  fixes waveform :: "('a::zero) list"
  assumes "0 < granularity"
  shows "\<exists>r. resize_waveform waveform granularity = Inr r
    \<and> int (length r) =
        \<lceil>real_of_int (max (int (length waveform)) 1) / real_of_int granularity\<rceil> * granularity
    \<and> take (length waveform) r = waveform
    \<and> (\<forall>x \<in> set (drop (length waveform) r). x = 0)
    \<and> (waveform = [] \<longrightarrow> r = replicate (nat granularity) 0)
    \<and> resize_waveform r granularity = Inr r"
proof -
  let ?m = "max (int (length waveform)) 1"
  let ?c = "\<lceil>real_of_int ?m / real_of_int granularity\<rceil> * granularity"
  let ?r = "waveform @ replicate (nat ?c - length waveform) (0::'a)"
  have ret: "resize_waveform waveform granularity = Inr ?r"
    using assms by (rule resize_waveform_returns)
  have ge: "?m \<le> ?c"
    using assms by (rule ceiling_multiple_ge)
  have len: "int (length ?r) = ?c"
  proof -
    define c where "c = ?c"
    have "int (length waveform) \<le> c" "0 \<le> c"
      using ge by (simp_all add: c_def)
    then have "int (length waveform) + int (nat c - length waveform) = c"
      by linarith
    then show ?thesis
      by (simp add: c_def)
  qed
  have dvd: "?c mod granularity = 0"
    by simp
  have ne: "?r \<noteq> []"
    using len ge by auto
  have fixed: "resize_waveform ?r granularity = Inr ?r"
    using assms ne dvd len by (intro resize_waveform_fixed) simp_all
  have "\<lceil>1 / real_of_int granularity\<rceil> = 1"
    using assms by (simp add: ceiling_eq_iff)
  then have empty: "waveform = [] \<longrightarrow> ?r = replicate (nat granularity) 0"
    by simp
  from ret len fixed empty show ?thesis
    by (intro exI [of _ ?r]) simp
qed

text \<open>
  The sizes of the test table, on arrays of ones: \<open>(0,16)\<close>, \<open>(10,16)\<close>, \<open>(16,16)\<close>,
  \<open>(30,16)\<close> and \<open>(33,16)\<close> give lengths 16, 16, 16, 32 and 48.
\<close>

theorem resize_waveform_spec_witness:
  "(0::int) < 16
   \<and> (\<exists>r. resize_waveform (replicate 0 (1::real)) 16 = Inr r \<and> int (length r) = 16)
   \<and> (\<exists>r. resize_waveform (replicate 10 (1::real)) 16 = Inr r \<and> int (length r) = 16)
   \<and> (\<exists>r. resize_waveform (replicate 16 (1::real)) 16 = Inr r \<and> int (length r) = 16)
   \<and> (\<exists>r. resize_waveform (replicate 30 (1::real)) 16 = Inr r \<and> int (length r) = 32)
   \<and> (\<exists>r. resize_waveform (replicate 33 (1::real)) 16 = Inr r \<and> int (length r) = 48)"
proof -
  have g: "(0::int) < 16"
    by simp
  have s0: "\<exists>r. resize_waveform (replicate 0 (1::real)) 16 = Inr r \<and> int (length r) = 16"
    using resize_waveform_spec [OF g, of "replicate 0 (1::real)"] by auto
  have s10: "\<exists>r. resize_waveform (replicate 10 (1::real)) 16 = Inr r \<and> int (length r) = 16"
    using resize_waveform_spec [OF g, of "replicate 10 (1::real)"] by auto
  have s16: "\<exists>r. resize_waveform (replicate 16 (1::real)) 16 = Inr r \<and> int (length r) = 16"
    using resize_waveform_spec [OF g, of "replicate 16 (1::real)"] by auto
  have s30: "\<exists>r. resize_waveform (replicate 30 (1::real)) 16 = Inr r \<and> int (length r) = 32"
    using resize_waveform_spec [OF g, of "replicate 30 (1::real)"] by auto
  have s33: "\<exists>r. resize_waveform (replicate 33 (1::real)) 16 = Inr r \<and> int (length r) = 48"
    using resize_waveform_spec [OF g, of "replicate 33 (1::real)"] by auto
  from g s0 s10 s16 s30 s33 show ?thesis
    by blast
qed

subsection \<open>Properties of normalisation\<close>

text \<open>
  The lemmas of this subsection are about \<open>normalize_waveform_data\<close>, where the division
  is exact. The function with rounded divisions is treated in the subsections after it.
\<close>

lemma np_complex_Re:
  "length re = length im \<Longrightarrow> map Re (np_complex re im) = re"
  by (induction re im rule: list_induct2) (simp_all add: np_complex_def)

lemma np_complex_Im:
  "length re = length im \<Longrightarrow> map Im (np_complex re im) = im"
  by (induction re im rule: list_induct2) (simp_all add: np_complex_def)

lemma np_complex_length:
  "length re = length im \<Longrightarrow> length (np_complex re im) = length re"
  by (simp add: np_complex_def)

lemma peak_zero_iff:
  fixes xs :: "real list"
  assumes "xs \<noteq> []"
  shows "Max (set (map abs xs)) = 0 \<longleftrightarrow> (\<forall>x \<in> set xs. x = 0)"
proof
  assume z: "Max (set (map abs xs)) = 0"
  show "\<forall>x \<in> set xs. x = 0"
  proof
    fix x assume "x \<in> set xs"
    then have "\<bar>x\<bar> \<le> Max (set (map abs xs))"
      by (intro Max_ge) auto
    with z show "x = 0" by simp
  qed
next
  assume a: "\<forall>x \<in> set xs. x = 0"
  have "Max (set (map abs xs)) \<in> set (map abs xs)"
    using assms by (intro Max_in) auto
  with a show "Max (set (map abs xs)) = 0" by auto
qed

lemma norm_path_roundtrip:
  fixes xs :: "real list"
  assumes "xs \<noteq> []"
  shows "map (\<lambda>y. y * Max (set (map abs xs))) (norm_path xs) = xs"
proof (cases "Max (set (map abs xs)) = 0")
  case True
  then have "\<forall>x \<in> set xs. x = 0"
    using peak_zero_iff [OF assms] by blast
  then have r: "replicate (length xs) (0::real) = xs"
    by (rule replicate_length_same)
  have "map (\<lambda>y. y * Max (set (map abs xs))) (norm_path xs) = replicate (length xs) 0"
    using True by (simp add: norm_path_def)
  also note r
  finally show ?thesis .
next
  case False
  then show ?thesis
    by (simp add: norm_path_def map_idI)
qed

lemma norm_path_length: "length (norm_path xs) = length xs"
  by (simp add: norm_path_def)

lemma norm_path_zero:
  fixes xs :: "real list"
  assumes "xs \<noteq> []" "\<forall>x \<in> set xs. x = 0"
  shows "\<forall>y \<in> set (norm_path xs). y = 0"
proof -
  have "Max (set (map abs xs)) = 0"
    using peak_zero_iff [OF assms(1)] assms(2) by blast
  then show ?thesis
    by (simp add: norm_path_def)
qed

lemma normalize_waveform_data_returns:
  assumes "samples \<noteq> []"
  shows "normalize_waveform_data samples =
    Inr (np_complex (norm_path (map Re samples)) (norm_path (map Im samples)),
         Max (set (map abs (map Re samples))), Max (set (map abs (map Im samples))))"
  using assms
  by (simp add: normalize_waveform_data_def np_max_def np_divide_def norm_path_def comp_def)

lemma normalize_waveform_data_props:
  assumes "samples \<noteq> []"
  shows "\<exists>d amp_real amp_imag.
          normalize_waveform_data samples = Inr (d, amp_real, amp_imag)
          \<and> length d = length samples
          \<and> map (\<lambda>z. Re z * amp_real) d = map Re samples
          \<and> map (\<lambda>z. Im z * amp_imag) d = map Im samples
          \<and> ((\<forall>z \<in> set samples. Re z = 0) \<longrightarrow> amp_real = 0 \<and> (\<forall>z \<in> set d. Re z = 0))
          \<and> ((\<forall>z \<in> set samples. Im z = 0) \<longrightarrow> amp_imag = 0 \<and> (\<forall>z \<in> set d. Im z = 0))"
proof -
  let ?re = "map Re samples" and ?im = "map Im samples"
  let ?d = "np_complex (norm_path ?re) (norm_path ?im)"
  let ?ar = "Max (set (map abs ?re))" and ?ai = "Max (set (map abs ?im))"
  have ne: "?re \<noteq> []" "?im \<noteq> []"
    using assms by simp_all
  have ret: "normalize_waveform_data samples = Inr (?d, ?ar, ?ai)"
    using assms by (rule normalize_waveform_data_returns)
  have len: "length (norm_path ?re) = length (norm_path ?im)"
    by (simp add: norm_path_length)
  have dre: "map Re ?d = norm_path ?re" and dim: "map Im ?d = norm_path ?im"
    using len by (simp_all add: np_complex_Re np_complex_Im)
  have lend: "length ?d = length samples"
    using len by (simp add: np_complex_length norm_path_length)
  have "map (\<lambda>y. y * ?ar) (map Re ?d) = ?re"
    unfolding dre using ne(1) by (rule norm_path_roundtrip)
  then have rt_re: "map (\<lambda>z. Re z * ?ar) ?d = ?re"
    by (simp add: comp_def)
  have "map (\<lambda>y. y * ?ai) (map Im ?d) = ?im"
    unfolding dim using ne(2) by (rule norm_path_roundtrip)
  then have rt_im: "map (\<lambda>z. Im z * ?ai) ?d = ?im"
    by (simp add: comp_def)
  have z_re: "(\<forall>z \<in> set samples. Re z = 0) \<longrightarrow> ?ar = 0 \<and> (\<forall>z \<in> set ?d. Re z = 0)"
  proof
    assume a: "\<forall>z \<in> set samples. Re z = 0"
    then have all0: "\<forall>x \<in> set ?re. x = 0" by simp
    then have "?ar = 0"
      using peak_zero_iff [OF ne(1)] by blast
    moreover have "\<forall>y \<in> set (map Re ?d). y = 0"
      unfolding dre using ne(1) all0 by (rule norm_path_zero)
    ultimately show "?ar = 0 \<and> (\<forall>z \<in> set ?d. Re z = 0)" by simp
  qed
  have z_im: "(\<forall>z \<in> set samples. Im z = 0) \<longrightarrow> ?ai = 0 \<and> (\<forall>z \<in> set ?d. Im z = 0)"
  proof
    assume a: "\<forall>z \<in> set samples. Im z = 0"
    then have all0: "\<forall>x \<in> set ?im. x = 0" by simp
    then have "?ai = 0"
      using peak_zero_iff [OF ne(2)] by blast
    moreover have "\<forall>y \<in> set (map Im ?d). y = 0"
      unfolding dim using ne(2) all0 by (rule norm_path_zero)
    ultimately show "?ai = 0 \<and> (\<forall>z \<in> set ?d. Im z = 0)" by simp
  qed
  from ret lend rt_re rt_im z_re z_im show ?thesis
    by (intro exI [of _ ?d] exI [of _ ?ar] exI [of _ ?ai]) simp
qed

lemma normalize_waveform_data_empty_raises:
  "normalize_waveform_data [] =
     Inl (ValueError [Lit ''zero-size array to reduction operation maximum which has no identity''])"
  by (simp add: normalize_waveform_data_def np_max_def)

lemma normalize_waveform_data_Inr_nonempty:
  "normalize_waveform_data samples = Inr r \<Longrightarrow> samples \<noteq> []"
  by (auto simp: normalize_waveform_data_empty_raises)

subsection \<open>Properties of rounding to float64\<close>

lemma pow2_powr: "pow2 e = 2 powr (real_of_int e)"
  by (simp add: pow2_def powr_int)

lemma pow2_pos: "0 < pow2 e"
  by (simp add: pow2_powr)

lemma pow2_add: "pow2 (a + b) = pow2 a * pow2 b"
  by (simp add: pow2_powr powr_add)

lemma pow2_le_iff: "pow2 a \<le> pow2 b \<longleftrightarrow> a \<le> b"
  by (simp add: pow2_powr)

lemma pow2_less_iff: "pow2 a < pow2 b \<longleftrightarrow> a < b"
  by (simp add: pow2_powr)

lemma pow2_zero: "pow2 0 = 1"
  by (simp add: pow2_def)

lemma pow2_double: "pow2 (e + 1) = 2 * pow2 e"
  by (simp add: pow2_powr powr_add)

lemma exponent_candidates_finite:
  "finite (insert (- 1022) {e \<in> {- 1022..1024}. pow2 e \<le> \<bar>x\<bar>})"
proof -
  have "{e \<in> {- 1022..1024}. pow2 e \<le> \<bar>x\<bar>} \<subseteq> {- 1022..1024}"
    by blast
  then have "finite {e \<in> {- 1022..1024}. pow2 e \<le> \<bar>x\<bar>}"
    by (rule finite_subset) simp
  then show ?thesis
    by (rule finite.insertI)
qed

lemma exponent_in:
  "exponent x \<in> insert (- 1022) {e \<in> {- 1022..1024}. pow2 e \<le> \<bar>x\<bar>}"
  unfolding exponent_def by (rule Max_in [OF exponent_candidates_finite]) blast

lemma exponent_range: "- 1022 \<le> exponent x" "exponent x \<le> 1024"
  using exponent_in [of x] by auto

lemma exponent_ge:
  assumes "- 1022 \<le> e" "e \<le> 1024" "pow2 e \<le> \<bar>x\<bar>"
  shows "e \<le> exponent x"
  unfolding exponent_def using assms
  by (intro Max_ge [OF exponent_candidates_finite]) simp

lemma exponent_le_abs:
  assumes "pow2 (- 1022) \<le> \<bar>x\<bar>"
  shows "pow2 (exponent x) \<le> \<bar>x\<bar>"
  using exponent_in [of x] assms by auto

lemma exponent_subnormal:
  assumes "\<bar>x\<bar> < pow2 (- 1022)"
  shows "exponent x = - 1022"
proof -
  have "e = - 1022" if "e \<in> insert (- 1022) {e \<in> {- 1022..1024}. pow2 e \<le> \<bar>x\<bar>}" for e
  proof (rule ccontr)
    assume "e \<noteq> - 1022"
    with that have "- 1022 \<le> e" "pow2 e \<le> \<bar>x\<bar>"
      by auto
    then have "pow2 (- 1022) \<le> \<bar>x\<bar>"
      using pow2_le_iff [of "- 1022" e] by linarith
    with assms show False by simp
  qed
  with exponent_in [of x] show ?thesis
    by blast
qed

lemma exponent_eqI:
  assumes "- 1022 \<le> e" "e \<le> 1024" "pow2 e \<le> \<bar>x\<bar>" "\<bar>x\<bar> < pow2 (e + 1)"
  shows "exponent x = e"
proof (rule antisym)
  show "e \<le> exponent x"
    using assms(1-3) by (rule exponent_ge)
  show "exponent x \<le> e"
  proof (rule ccontr)
    assume "\<not> exponent x \<le> e"
    then have gt: "e + 1 \<le> exponent x"
      by simp
    then have "exponent x \<noteq> - 1022"
      using assms(1) by simp
    with exponent_in [of x] have "pow2 (exponent x) \<le> \<bar>x\<bar>"
      by auto
    moreover have "pow2 (e + 1) \<le> pow2 (exponent x)"
      using gt by (simp only: pow2_le_iff)
    ultimately show False
      using assms(4) by simp
  qed
qed

lemma exponent_le_zero:
  assumes "\<bar>x\<bar> \<le> 1"
  shows "exponent x \<le> 0"
proof (rule ccontr)
  assume "\<not> exponent x \<le> 0"
  then have pos: "1 \<le> exponent x"
    by simp
  then have "exponent x \<noteq> - 1022"
    by simp
  with exponent_in [of x] have "pow2 (exponent x) \<le> \<bar>x\<bar>"
    by auto
  moreover have "pow2 1 \<le> pow2 (exponent x)"
    using pos by (simp only: pow2_le_iff)
  moreover have "pow2 1 = 2"
    by (simp add: pow2_def)
  ultimately show False
    using assms by simp
qed

lemma round_half_even_error: "\<bar>real_of_int (round_half_even z) - z\<bar> \<le> 1 / 2"
proof -
  have "real_of_int \<lfloor>z\<rfloor> \<le> z" "z < real_of_int \<lfloor>z\<rfloor> + 1"
    by linarith+
  then show ?thesis
    by (auto simp: round_half_even_def Let_def)
qed

lemma round_half_even_eqI:
  assumes "real_of_int m - 1 / 2 < z" "z < real_of_int m + 1 / 2"
  shows "round_half_even z = m"
proof -
  have fl: "real_of_int \<lfloor>z\<rfloor> \<le> z" "z < real_of_int \<lfloor>z\<rfloor> + 1"
    by linarith+
  have "\<lfloor>z\<rfloor> = m \<or> \<lfloor>z\<rfloor> = m - 1"
    using assms fl by linarith
  then show ?thesis
  proof
    assume "\<lfloor>z\<rfloor> = m"
    with assms show ?thesis
      by (simp add: round_half_even_def Let_def)
  next
    assume "\<lfloor>z\<rfloor> = m - 1"
    with assms show ?thesis
      by (simp add: round_half_even_def Let_def)
  qed
qed

lemma float64_error: "\<bar>float64 x - x\<bar> \<le> pow2 (exponent x - 52) / 2"
proof -
  let ?u = "pow2 (exponent x - 52)"
  have u: "0 < ?u"
    by (rule pow2_pos)
  have "\<bar>real_of_int (round_half_even (x / ?u)) - x / ?u\<bar> \<le> 1 / 2"
    by (rule round_half_even_error)
  then have "\<bar>real_of_int (round_half_even (x / ?u)) - x / ?u\<bar> * ?u \<le> 1 / 2 * ?u"
    using u by (intro mult_right_mono) simp_all
  moreover have "\<bar>real_of_int (round_half_even (x / ?u)) - x / ?u\<bar> * ?u = \<bar>float64 x - x\<bar>"
  proof -
    have "\<bar>real_of_int (round_half_even (x / ?u)) - x / ?u\<bar> * ?u
        = \<bar>(real_of_int (round_half_even (x / ?u)) - x / ?u) * ?u\<bar>"
      using u by (simp add: abs_mult)
    also have "(real_of_int (round_half_even (x / ?u)) - x / ?u) * ?u = float64 x - x"
      using u by (simp add: float64_def left_diff_distrib)
    finally show ?thesis .
  qed
  ultimately show ?thesis
    by simp
qed

lemma float64_error_unit:
  assumes "\<bar>y\<bar> \<le> 1"
  shows "\<bar>float64 y - y\<bar> \<le> pow2 (- 53)"
proof -
  have "exponent y - 52 \<le> - 52"
    using exponent_le_zero [OF assms] by simp
  then have "pow2 (exponent y - 52) \<le> pow2 (- 52)"
    by (simp only: pow2_le_iff)
  moreover have "pow2 (- 52) = 2 * pow2 (- 53)"
    using pow2_double [of "- 53"] by simp
  ultimately show ?thesis
    using float64_error [of y] by linarith
qed

lemma float64_error_rel: "\<bar>float64 p - p\<bar> \<le> \<bar>p\<bar> * pow2 (- 53) + pow2 (- 1075)"
proof (cases "pow2 (- 1022) \<le> \<bar>p\<bar>")
  case True
  have "pow2 (exponent p - 52) = pow2 (exponent p) * (2 * pow2 (- 53))"
    using pow2_add [of "exponent p" "- 52"] pow2_double [of "- 53"] by simp
  also have "\<dots> \<le> \<bar>p\<bar> * (2 * pow2 (- 53))"
    using exponent_le_abs [OF True] pow2_pos [of "- 53"] by (intro mult_right_mono) simp_all
  finally have "pow2 (exponent p - 52) / 2 \<le> \<bar>p\<bar> * pow2 (- 53)"
    by simp
  with float64_error [of p] pow2_pos [of "- 1075"] show ?thesis
    by linarith
next
  case False
  then have "exponent p = - 1022"
    by (intro exponent_subnormal) simp
  then have "pow2 (exponent p - 52) = 2 * pow2 (- 1075)"
    using pow2_double [of "- 1075"] by simp
  then have "\<bar>float64 p - p\<bar> \<le> pow2 (- 1075)"
    using float64_error [of p] by simp
  moreover have "0 \<le> \<bar>p\<bar> * pow2 (- 53)"
    using pow2_pos [of "- 53"] by simp
  ultimately show ?thesis
    by linarith
qed

lemma float64_roundtrip:
  assumes "\<bar>x\<bar> \<le> a" "0 < a"
  shows "\<bar>float64 (float64 (x / a) * a) - x\<bar> \<le> a * pow2 (- 51) + pow2 (- 1074)"
proof -
  let ?u = "pow2 (- 53)"
  let ?q = "float64 (x / a)"
  have u: "0 < ?u"
    by (rule pow2_pos)
  have u1: "?u \<le> 1"
    using pow2_le_iff [of "- 53" 0] by (simp add: pow2_zero)
  have y: "\<bar>x / a\<bar> \<le> 1"
    using assms by simp
  have q: "\<bar>?q - x / a\<bar> \<le> ?u"
    using y by (rule float64_error_unit)
  have "\<bar>?q * a - x\<bar> = \<bar>?q - x / a\<bar> * a"
  proof -
    have "?q * a - x = (?q - x / a) * a"
      using assms(2) by (simp add: left_diff_distrib)
    then show ?thesis
      using assms(2) by (simp add: abs_mult)
  qed
  also have "\<dots> \<le> ?u * a"
    using q assms(2) by (intro mult_right_mono) simp_all
  finally have p: "\<bar>?q * a - x\<bar> \<le> ?u * a" .
  then have pabs: "\<bar>?q * a\<bar> \<le> a + ?u * a"
    using assms(1) by linarith
  have "?u * a \<le> a"
    using u1 assms(2) by simp
  with pabs have pabs2: "\<bar>?q * a\<bar> \<le> 2 * a"
    by linarith
  have "\<bar>float64 (?q * a) - ?q * a\<bar> \<le> \<bar>?q * a\<bar> * ?u + pow2 (- 1075)"
    by (rule float64_error_rel)
  also have "\<dots> \<le> 2 * a * ?u + pow2 (- 1075)"
    using pabs2 u by (simp add: mult_right_mono)
  finally have r: "\<bar>float64 (?q * a) - ?q * a\<bar> \<le> 2 * a * ?u + pow2 (- 1075)" .
  have e51: "pow2 (- 51) = 4 * ?u"
    using pow2_double [of "- 53"] pow2_double [of "- 52"] by simp
  have e1074: "pow2 (- 1075) \<le> pow2 (- 1074)"
    by (simp add: pow2_le_iff)
  define b where "b = a * ?u"
  have p': "\<bar>?q * a - x\<bar> \<le> b"
    using p by (simp add: b_def mult.commute)
  have r': "\<bar>float64 (?q * a) - ?q * a\<bar> \<le> 2 * b + pow2 (- 1075)"
    using r by (simp add: b_def mult.assoc)
  have b: "0 \<le> b"
    using assms(2) u by (simp add: b_def)
  have "\<bar>float64 (?q * a) - x\<bar> \<le> 4 * b + pow2 (- 1074)"
    using p' r' b e1074 by linarith
  also have "4 * b = a * pow2 (- 51)"
    by (simp add: b_def e51)
  finally show ?thesis .
qed


lemma float64_eqI:
  assumes "- 1022 \<le> e" "e \<le> 1024" "pow2 e \<le> \<bar>x\<bar>" "\<bar>x\<bar> < pow2 (e + 1)"
    and "real_of_int m - 1 / 2 < x / pow2 (e - 52)" "x / pow2 (e - 52) < real_of_int m + 1 / 2"
  shows "float64 x = real_of_int m * pow2 (e - 52)"
proof -
  have "exponent x = e"
    using assms(1-4) by (rule exponent_eqI)
  moreover have "round_half_even (x / pow2 (e - 52)) = m"
    using assms(5,6) by (rule round_half_even_eqI)
  ultimately show ?thesis
    by (simp add: float64_def)
qed

subsection \<open>Properties of normalisation in float64\<close>

lemma float64_zero: "float64 0 = 0"
  by (simp add: float64_def round_half_even_def)

lemma norm_path_float64_length: "length (norm_path_float64 xs) = length xs"
  by (simp add: norm_path_float64_def)

lemma norm_path_float64_zero:
  fixes xs :: "real list"
  assumes "xs \<noteq> []" "\<forall>x \<in> set xs. x = 0"
  shows "\<forall>y \<in> set (norm_path_float64 xs). y = 0"
proof -
  have "Max (set (map abs xs)) = 0"
    using peak_zero_iff [OF assms(1)] assms(2) by blast
  then show ?thesis
    by (simp add: norm_path_float64_def)
qed

lemma norm_path_float64_tolerance:
  fixes xs :: "real list"
  assumes "xs \<noteq> []" "k < length xs"
  shows "\<bar>float64 (norm_path_float64 xs ! k * Max (set (map abs xs))) - xs ! k\<bar>
    \<le> Max (set (map abs xs)) * pow2 (- 51) + pow2 (- 1074)"
proof (cases "Max (set (map abs xs)) = 0")
  case True
  then have "\<forall>x \<in> set xs. x = 0"
    using peak_zero_iff [OF assms(1)] by blast
  then have "xs ! k = 0"
    using assms(2) by simp
  moreover have "0 \<le> pow2 (- 1074)"
    using pow2_pos [of "- 1074"] by simp
  ultimately show ?thesis
    using True by (simp add: float64_zero)
next
  case False
  let ?a = "Max (set (map abs xs))"
  have "\<bar>xs ! k\<bar> \<in> set (map abs xs)"
    using assms(2) by (auto simp: in_set_conv_nth intro!: image_eqI [of _ _ "xs ! k"])
  then have le: "\<bar>xs ! k\<bar> \<le> ?a"
    by (intro Max_ge) simp_all
  then have pos: "0 < ?a"
    using False by linarith
  have "norm_path_float64 xs ! k = float64 (xs ! k / ?a)"
    using False assms(2) by (simp add: norm_path_float64_def)
  then show ?thesis
    using float64_roundtrip [OF le pos] by simp
qed

lemma normalize_waveform_data_float64_returns:
  assumes "samples \<noteq> []"
  shows "normalize_waveform_data_float64 samples =
    Inr (np_complex (norm_path_float64 (map Re samples)) (norm_path_float64 (map Im samples)),
         Max (set (map abs (map Re samples))), Max (set (map abs (map Im samples))))"
  using assms
  by (simp add: normalize_waveform_data_float64_def np_max_def np_divide_float64_def
      norm_path_float64_def comp_def)



lemma np_complex_nth:
  assumes "length re = length im" "k < length re"
  shows "Re (np_complex re im ! k) = re ! k" "Im (np_complex re im ! k) = im ! k"
proof -
  have "k < length (np_complex re im)"
    using assms by (simp add: np_complex_length)
  then have "Re (np_complex re im ! k) = map Re (np_complex re im) ! k"
    "Im (np_complex re im ! k) = map Im (np_complex re im) ! k"
    by simp_all
  then show "Re (np_complex re im ! k) = re ! k" "Im (np_complex re im ! k) = im ! k"
    using assms(1) by (simp_all only: np_complex_Re np_complex_Im)
qed

text \<open>
  Claim C7, as amended. \<^verbatim>\<open>normalize_waveform_data\<close>, with its divisions rounded as
  numpy rounds them, never divides by zero. On a non-empty waveform it returns the
  rescaled data and the two peaks. Multiplying, in \<^verbatim>\<open>float64\<close>, the real part of a
  rescaled sample by the real peak gives the real part of the original sample back to
  floating tolerance: within the peak times \<open>pow2 (- 51)\<close>, plus the smallest
  subnormal \<open>pow2 (- 1074)\<close>; likewise for the imaginary parts. A path that is all zero
  has peak zero and an all-zero output. The round trip is not exact, and the waveform has
  to be non-empty: at \<^verbatim>\<open>[0.1, 2.9]\<close> the product differs from \<^verbatim>\<open>0.1\<close> in the last
  bit, and on the empty waveform \<^verbatim>\<open>np.max\<close> raises.
\<close>

theorem normalize_waveform_data_tolerance:
  "normalize_waveform_data_float64 samples \<noteq> Inl ZeroDivisionError
   \<and> (samples \<noteq> [] \<longrightarrow>
       (\<exists>d amp_real amp_imag.
          normalize_waveform_data_float64 samples = Inr (d, amp_real, amp_imag)
          \<and> length d = length samples
          \<and> (\<forall>k < length samples.
                \<bar>float64 (Re (d ! k) * amp_real) - Re (samples ! k)\<bar>
                  \<le> amp_real * pow2 (- 51) + pow2 (- 1074))
          \<and> (\<forall>k < length samples.
                \<bar>float64 (Im (d ! k) * amp_imag) - Im (samples ! k)\<bar>
                  \<le> amp_imag * pow2 (- 51) + pow2 (- 1074))
          \<and> ((\<forall>z \<in> set samples. Re z = 0) \<longrightarrow> amp_real = 0 \<and> (\<forall>z \<in> set d. Re z = 0))
          \<and> ((\<forall>z \<in> set samples. Im z = 0) \<longrightarrow> amp_imag = 0 \<and> (\<forall>z \<in> set d. Im z = 0))))"
proof (cases "samples = []")
  case True
  then show ?thesis
    by (simp add: normalize_waveform_data_float64_def np_max_def)
next
  case False
  let ?re = "map Re samples" and ?im = "map Im samples"
  let ?d = "np_complex (norm_path_float64 ?re) (norm_path_float64 ?im)"
  let ?ar = "Max (set (map abs ?re))" and ?ai = "Max (set (map abs ?im))"
  have ne: "?re \<noteq> []" "?im \<noteq> []"
    using False by simp_all
  have ret: "normalize_waveform_data_float64 samples = Inr (?d, ?ar, ?ai)"
    using False by (rule normalize_waveform_data_float64_returns)
  have len: "length (norm_path_float64 ?re) = length (norm_path_float64 ?im)"
    by (simp add: norm_path_float64_length)
  have dre: "map Re ?d = norm_path_float64 ?re" and dim: "map Im ?d = norm_path_float64 ?im"
    using len by (simp_all add: np_complex_Re np_complex_Im)
  have lend: "length ?d = length samples"
    using len by (simp add: np_complex_length norm_path_float64_length)
  have tol_re: "\<bar>float64 (Re (?d ! k) * ?ar) - Re (samples ! k)\<bar>
      \<le> ?ar * pow2 (- 51) + pow2 (- 1074)" if k: "k < length samples" for k
  proof -
    have "Re (?d ! k) = norm_path_float64 ?re ! k"
      using len k by (intro np_complex_nth) (simp_all add: norm_path_float64_length)
    moreover have "?re ! k = Re (samples ! k)"
      using k by simp
    moreover have "\<bar>float64 (norm_path_float64 ?re ! k * ?ar) - ?re ! k\<bar>
        \<le> ?ar * pow2 (- 51) + pow2 (- 1074)"
      using ne(1) k by (intro norm_path_float64_tolerance) simp_all
    ultimately show ?thesis
      by (simp only:)
  qed
  have tol_im: "\<bar>float64 (Im (?d ! k) * ?ai) - Im (samples ! k)\<bar>
      \<le> ?ai * pow2 (- 51) + pow2 (- 1074)" if k: "k < length samples" for k
  proof -
    have "Im (?d ! k) = norm_path_float64 ?im ! k"
      using len k by (intro np_complex_nth) (simp_all add: norm_path_float64_length)
    moreover have "?im ! k = Im (samples ! k)"
      using k by simp
    moreover have "\<bar>float64 (norm_path_float64 ?im ! k * ?ai) - ?im ! k\<bar>
        \<le> ?ai * pow2 (- 51) + pow2 (- 1074)"
      using ne(2) k by (intro norm_path_float64_tolerance) simp_all
    ultimately show ?thesis
      by (simp only:)
  qed
  have z_re: "(\<forall>z \<in> set samples. Re z = 0) \<longrightarrow> ?ar = 0 \<and> (\<forall>z \<in> set ?d. Re z = 0)"
  proof
    assume a: "\<forall>z \<in> set samples. Re z = 0"
    then have all0: "\<forall>x \<in> set ?re. x = 0" by simp
    then have "?ar = 0"
      using peak_zero_iff [OF ne(1)] by blast
    moreover have "\<forall>y \<in> set (map Re ?d). y = 0"
      unfolding dre using ne(1) all0 by (rule norm_path_float64_zero)
    ultimately show "?ar = 0 \<and> (\<forall>z \<in> set ?d. Re z = 0)" by simp
  qed
  have z_im: "(\<forall>z \<in> set samples. Im z = 0) \<longrightarrow> ?ai = 0 \<and> (\<forall>z \<in> set ?d. Im z = 0)"
  proof
    assume a: "\<forall>z \<in> set samples. Im z = 0"
    then have all0: "\<forall>x \<in> set ?im. x = 0" by simp
    then have "?ai = 0"
      using peak_zero_iff [OF ne(2)] by blast
    moreover have "\<forall>y \<in> set (map Im ?d). y = 0"
      unfolding dim using ne(2) all0 by (rule norm_path_float64_zero)
    ultimately show "?ai = 0 \<and> (\<forall>z \<in> set ?d. Im z = 0)" by simp
  qed
  have no_div: "normalize_waveform_data_float64 samples \<noteq> Inl ZeroDivisionError"
    unfolding ret by (rule sum.distinct(2))
  have body: "normalize_waveform_data_float64 samples = Inr (?d, ?ar, ?ai)
          \<and> length ?d = length samples
          \<and> (\<forall>k < length samples.
                \<bar>float64 (Re (?d ! k) * ?ar) - Re (samples ! k)\<bar>
                  \<le> ?ar * pow2 (- 51) + pow2 (- 1074))
          \<and> (\<forall>k < length samples.
                \<bar>float64 (Im (?d ! k) * ?ai) - Im (samples ! k)\<bar>
                  \<le> ?ai * pow2 (- 51) + pow2 (- 1074))
          \<and> ((\<forall>z \<in> set samples. Re z = 0) \<longrightarrow> ?ar = 0 \<and> (\<forall>z \<in> set ?d. Re z = 0))
          \<and> ((\<forall>z \<in> set samples. Im z = 0) \<longrightarrow> ?ai = 0 \<and> (\<forall>z \<in> set ?d. Im z = 0))"
  proof (intro conjI)
    show "normalize_waveform_data_float64 samples = Inr (?d, ?ar, ?ai)"
      by (rule ret)
    show "length ?d = length samples"
      by (rule lend)
    show "\<forall>k < length samples.
        \<bar>float64 (Re (?d ! k) * ?ar) - Re (samples ! k)\<bar> \<le> ?ar * pow2 (- 51) + pow2 (- 1074)"
      by (intro allI impI) (rule tol_re)
    show "\<forall>k < length samples.
        \<bar>float64 (Im (?d ! k) * ?ai) - Im (samples ! k)\<bar> \<le> ?ai * pow2 (- 51) + pow2 (- 1074)"
      by (intro allI impI) (rule tol_im)
    show "(\<forall>z \<in> set samples. Re z = 0) \<longrightarrow> ?ar = 0 \<and> (\<forall>z \<in> set ?d. Re z = 0)"
      by (rule z_re)
    show "(\<forall>z \<in> set samples. Im z = 0) \<longrightarrow> ?ai = 0 \<and> (\<forall>z \<in> set ?d. Im z = 0)"
      by (rule z_im)
  qed
  show ?thesis
  proof (intro conjI impI)
    show "normalize_waveform_data_float64 samples \<noteq> Inl ZeroDivisionError"
      by (rule no_div)
    show "\<exists>d amp_real amp_imag.
          normalize_waveform_data_float64 samples = Inr (d, amp_real, amp_imag)
          \<and> length d = length samples
          \<and> (\<forall>k < length samples.
                \<bar>float64 (Re (d ! k) * amp_real) - Re (samples ! k)\<bar>
                  \<le> amp_real * pow2 (- 51) + pow2 (- 1074))
          \<and> (\<forall>k < length samples.
                \<bar>float64 (Im (d ! k) * amp_imag) - Im (samples ! k)\<bar>
                  \<le> amp_imag * pow2 (- 51) + pow2 (- 1074))
          \<and> ((\<forall>z \<in> set samples. Re z = 0) \<longrightarrow> amp_real = 0 \<and> (\<forall>z \<in> set d. Re z = 0))
          \<and> ((\<forall>z \<in> set samples. Im z = 0) \<longrightarrow> amp_imag = 0 \<and> (\<forall>z \<in> set d. Im z = 0))"
      using body by (intro exI)
  qed
qed





lemma double_div: "float64 (double_0_1 / double_2_9) = 4969489243995030 / 2 ^ 57"
proof -
  have "float64 (double_0_1 / double_2_9) = real_of_int 4969489243995030 * pow2 (- 5 - 52)"
    by (rule float64_eqI) (simp_all add: double_0_1_def double_2_9_def pow2_def)
  then show ?thesis
    by (simp add: pow2_def)
qed

lemma double_div_self: "float64 (double_2_9 / double_2_9) = 1"
proof -
  have "float64 (double_2_9 / double_2_9) = real_of_int 4503599627370496 * pow2 (0 - 52)"
    by (rule float64_eqI) (simp_all add: double_2_9_def pow2_def)
  then show ?thesis
    by (simp add: pow2_def)
qed

lemma double_mul:
  "float64 (4969489243995030 / 2 ^ 57 * double_2_9) = 7205759403792793 / 2 ^ 56"
proof -
  have "float64 (4969489243995030 / 2 ^ 57 * double_2_9)
      = real_of_int 7205759403792793 * pow2 (- 4 - 52)"
    by (rule float64_eqI) (simp_all add: double_2_9_def pow2_def)
  then show ?thesis
    by (simp add: pow2_def)
qed

lemma double_normalize:
  "normalize_waveform_data_float64 [Complex double_0_1 0, Complex double_2_9 0]
     = Inr ([Complex (4969489243995030 / 2 ^ 57) 0, Complex 1 0], double_2_9, 0)"
proof -
  have "double_2_9 \<noteq> 0"
    by (simp add: double_2_9_def)
  moreover have "float64 1 = 1"
    using double_div_self by (simp add: double_2_9_def)
  moreover have "max \<bar>double_0_1\<bar> \<bar>double_2_9\<bar> = double_2_9"
    by (simp add: double_0_1_def double_2_9_def)
  ultimately show ?thesis
    by (simp add: normalize_waveform_data_float64_def np_max_def np_divide_float64_def
        np_complex_def np_zeros_def double_div complex_eq_iff)
qed

text \<open>
  The waveform \<^verbatim>\<open>[0.1 + 0j, 2.9 + 0j]\<close>, with \<open>double_0_1\<close> and \<open>double_2_9\<close> the
  doubles nearest to \<^verbatim>\<open>0.1\<close> and \<^verbatim>\<open>2.9\<close>. The peak is \<^verbatim>\<open>2.9\<close>, the first rescaled
  sample is \<^verbatim>\<open>0.034482758620689655\<close>, and its product with the peak is
  \<^verbatim>\<open>0.09999999999999999\<close>, one unit in the last place below \<^verbatim>\<open>0.1\<close>: within the
  tolerance, and not equal.
\<close>

theorem normalize_waveform_data_tolerance_witness:
  "normalize_waveform_data_float64 [Complex double_0_1 0, Complex double_2_9 0]
     = Inr ([Complex (4969489243995030 / 2 ^ 57) 0, Complex 1 0], double_2_9, 0)
   \<and> float64 (4969489243995030 / 2 ^ 57 * double_2_9) = 7205759403792793 / 2 ^ 56
   \<and> 7205759403792793 / 2 ^ 56 \<noteq> double_0_1
   \<and> \<bar>7205759403792793 / 2 ^ 56 - double_0_1\<bar> \<le> double_2_9 * pow2 (- 51) + pow2 (- 1074)"
proof -
  let ?samples = "[Complex double_0_1 0, Complex double_2_9 0]"
  obtain d amp_real amp_imag where
    ret: "normalize_waveform_data_float64 ?samples = Inr (d, amp_real, amp_imag)" and
    tol: "\<forall>k < length ?samples.
            \<bar>float64 (Re (d ! k) * amp_real) - Re (?samples ! k)\<bar>
              \<le> amp_real * pow2 (- 51) + pow2 (- 1074)"
    using normalize_waveform_data_tolerance [of ?samples] by blast
  have d: "d = [Complex (4969489243995030 / 2 ^ 57) 0, Complex 1 0]"
    and a: "amp_real = double_2_9"
    using ret unfolding double_normalize by simp_all
  have "\<bar>float64 (Re (d ! 0) * amp_real) - Re (?samples ! 0)\<bar>
      \<le> amp_real * pow2 (- 51) + pow2 (- 1074)"
    using tol [rule_format, of 0] by simp
  then have "\<bar>float64 (4969489243995030 / 2 ^ 57 * double_2_9) - double_0_1\<bar>
      \<le> double_2_9 * pow2 (- 51) + pow2 (- 1074)"
    unfolding d a by simp
  then have bound: "\<bar>7205759403792793 / 2 ^ 56 - double_0_1\<bar>
      \<le> double_2_9 * pow2 (- 51) + pow2 (- 1074)"
    unfolding double_mul .
  have neq: "(7205759403792793 / 2 ^ 56 :: real) \<noteq> double_0_1"
    by (simp add: double_0_1_def)
  show ?thesis
    using double_normalize double_mul neq bound by (intro conjI)
qed

text \<open>
  Claim C7 as stated is about every complex waveform. On the empty waveform \<^verbatim>\<open>np.max\<close>
  raises \<^verbatim>\<open>ValueError\<close>: nothing is returned, so there is no output to multiply back.
\<close>

theorem normalize_waveform_data_float64_empty:
  "normalize_waveform_data_float64 []
     = Inl (ValueError [Lit ''zero-size array to reduction operation maximum which has no identity''])"
  by (simp add: normalize_waveform_data_float64_def np_max_def)

subsection \<open>Properties of the reserved square pulse\<close>

lemma stitched_square_pulse_unfold:
  assumes "np_linspace 0 time_duration (py_int (time_duration * sampling_rate)) = Inr t"
    and "exec_wf t = Inr buf"
    and "normalize_waveform_data buf = Inr (nd, pr, pim)"
  shows "stitched_square_pulse_waveform_data time_duration exec_wf sampling_rate =
     (if np_less (sum_list nd) 0 then Inr (map uminus nd, - pr, - pim) else Inr (nd, pr, pim))"
  using assms by (simp add: stitched_square_pulse_waveform_data_def)

text \<open>
  Claim C8. When the sample buffer over the stitching window is produced and normalised,
  the reserved square pulse returns the normalised buffer with its two peaks; if the sum
  of the normalised samples is negative (in numpy's order on complex numbers), the data
  and both peaks are negated together, otherwise all three are returned as they are. In
  both cases re-scaling the returned data by the returned peaks still gives the buffer,
  and the returned data has no negative sum.
\<close>

theorem stitched_square_pulse_sign:
  assumes "np_linspace 0 time_duration (py_int (time_duration * sampling_rate)) = Inr t"
    and "exec_wf t = Inr buf"
    and "normalize_waveform_data buf = Inr (nd, pr, pim)"
  shows "stitched_square_pulse_waveform_data time_duration exec_wf sampling_rate =
     (if np_less (sum_list nd) 0 then Inr (map uminus nd, - pr, - pim) else Inr (nd, pr, pim))
   \<and> (\<exists>d amp_i amp_q.
        stitched_square_pulse_waveform_data time_duration exec_wf sampling_rate
          = Inr (d, amp_i, amp_q)
        \<and> map (\<lambda>z. Re z * amp_i) d = map Re buf
        \<and> map (\<lambda>z. Im z * amp_q) d = map Im buf
        \<and> \<not> np_less (sum_list d) 0)"
proof -
  have ne: "buf \<noteq> []"
    using assms(3) by (rule normalize_waveform_data_Inr_nonempty)
  from normalize_waveform_data_props [OF ne] assms(3)
  have rt: "map (\<lambda>z. Re z * pr) nd = map Re buf" "map (\<lambda>z. Im z * pim) nd = map Im buf"
    by auto
  have u: "stitched_square_pulse_waveform_data time_duration exec_wf sampling_rate =
     (if np_less (sum_list nd) 0 then Inr (map uminus nd, - pr, - pim) else Inr (nd, pr, pim))"
    using assms by (rule stitched_square_pulse_unfold)
  have neg: "sum_list (map uminus nd) = - sum_list nd"
    by (induction nd) simp_all
  show ?thesis
  proof (cases "np_less (sum_list nd) 0")
    case True
    then have "\<not> np_less (sum_list (map uminus nd)) 0"
      by (auto simp: neg np_less_def)
    with True u rt show ?thesis
      by (simp add: comp_def)
  next
    case False
    with u rt show ?thesis
      by simp
  qed
qed

theorem stitched_square_pulse_sign_witness:
  "np_linspace 0 (1 / 10 ^ 6) (py_int (1 / 10 ^ 6 * (4 * 10 ^ 6)))
     = Inr [0, 1 / (3 * 10 ^ 6), 2 / (3 * 10 ^ 6), 1 / 10 ^ 6]
   \<and> stitched_square_pulse_waveform_data (1 / 10 ^ 6)
        (\<lambda>t. Inr (map (\<lambda>_. Complex (- 2 / 5) 0) t)) (4 * 10 ^ 6)
     = Inr ([1, 1, 1, 1], - 2 / 5, 0)
   \<and> stitched_square_pulse_waveform_data (1 / 10 ^ 6)
        (\<lambda>t. Inr (map (\<lambda>_. Complex (2 / 5) 0) t)) (4 * 10 ^ 6)
     = Inr ([1, 1, 1, 1], 2 / 5, 0)"
proof -
  let ?t = "[0, 1 / (3 * 10 ^ 6), 2 / (3 * 10 ^ 6), 1 / 10 ^ 6] :: real list"
  let ?neg = "\<lambda>t :: real list. Inr (map (\<lambda>_. Complex (- 2 / 5) 0) t) :: error + complex list"
  let ?pos = "\<lambda>t :: real list. Inr (map (\<lambda>_. Complex (2 / 5) 0) t) :: error + complex list"
  have t: "np_linspace 0 (1 / 10 ^ 6) (py_int (1 / 10 ^ 6 * (4 * 10 ^ 6))) = Inr ?t"
    by (simp add: np_linspace_def py_int_def upt_conv_Cons)
  have bn: "?neg ?t = Inr (replicate 4 (Complex (- 2 / 5) 0))"
    by (simp add: numeral_eq_Suc)
  have bp: "?pos ?t = Inr (replicate 4 (Complex (2 / 5) 0))"
    by (simp add: numeral_eq_Suc)
  have nn: "normalize_waveform_data (replicate 4 (Complex (- 2 / 5) 0))
      = Inr (replicate 4 (- 1), 2 / 5, 0)"
    by (simp add: normalize_waveform_data_def np_max_def np_divide_def np_complex_def
        numeral_eq_Suc complex_eq_iff)
  have np: "normalize_waveform_data (replicate 4 (Complex (2 / 5) 0))
      = Inr (replicate 4 1, 2 / 5, 0)"
    by (simp add: normalize_waveform_data_def np_max_def np_divide_def np_complex_def
        numeral_eq_Suc complex_eq_iff)
  have rn: "stitched_square_pulse_waveform_data (1 / 10 ^ 6) ?neg (4 * 10 ^ 6)
      = Inr ([1, 1, 1, 1], - 2 / 5, 0)"
    using stitched_square_pulse_sign [where exec_wf = ?neg, OF t bn nn]
    by (simp add: np_less_def numeral_eq_Suc)
  have rp: "stitched_square_pulse_waveform_data (1 / 10 ^ 6) ?pos (4 * 10 ^ 6)
      = Inr ([1, 1, 1, 1], 2 / 5, 0)"
    using stitched_square_pulse_sign [where exec_wf = ?pos, OF t bp np]
    by (simp add: np_less_def numeral_eq_Suc)
  from t rn rp show ?thesis
    by simp
qed

section \<open>The operation strategy factory: properties\<close>

lemma is_acquisition_bin_mode:
  "data op ''bin_mode'' = Some v \<Longrightarrow> is_acquisition op"
  by (simp add: is_acquisition_def contains_def)

text \<open>
  Claim C5. For an acquisition with protocol \<^verbatim>\<open>Trace\<close> and bin mode \<^verbatim>\<open>APPEND\<close>,
  \<^verbatim>\<open>get_operation_strategy\<close> raises and returns no strategy object, whatever the other
  arguments are. When the operation has a duration that can be added to its start time
  (every flattened operation has), the exception is the \<^verbatim>\<open>ValueError\<close> whose message
  carries the \<^verbatim>\<open>repr\<close> of the operation: its name, its time span and its data.
\<close>

theorem trace_append_rejected:
  assumes "data op ''protocol'' = Some (PStr ''Trace'')"
    and "data op ''bin_mode'' = Some (PBinMode BinMode_APPEND)"
  shows "(\<exists>e. get_operation_strategy op enabled io_mode = Inl e)
    \<and> (\<forall>v t_end. data op ''duration'' = Some v \<and> py_add_real (timing op) v = Inr t_end \<longrightarrow>
          get_operation_strategy op enabled io_mode =
            Inl (ValueError
              [Lit (''Trace acquisition does not support APPEND bin mode.''
                    @ [CHR 0x0A, CHR 0x0A]),
               Lit ''Acquisition'', Lit '' '', Lit (name op), Lit '' (t='', Num (timing op),
               Lit '' to '', Num t_end, Lit ('')'' @ [CHR 0x0A] @ ''data=''), Dict (data op),
               Lit '' caused this exception to occur.'']))"
proof -
  have acq: "is_acquisition op"
    using assms(2) by (rule is_acquisition_bin_mode)
  have sel: "get_operation_strategy op enabled io_mode =
      (case OpInfo_repr op of
         Inl e \<Rightarrow> Inl e
       | Inr r \<Rightarrow>
           Inl (ValueError
             ([Lit (''Trace acquisition does not support APPEND bin mode.''
                    @ [CHR 0x0A, CHR 0x0A])]
              @ r @ [Lit '' caused this exception to occur.''])))"
    using assms acq
    by (simp add: get_operation_strategy_def get_acquisition_strategy_def getitem_def)
  have raises: "\<exists>e. get_operation_strategy op enabled io_mode = Inl e"
    unfolding sel by (cases "OpInfo_repr op") simp_all
  have msg: "get_operation_strategy op enabled io_mode =
            Inl (ValueError
              [Lit (''Trace acquisition does not support APPEND bin mode.''
                    @ [CHR 0x0A, CHR 0x0A]),
               Lit ''Acquisition'', Lit '' '', Lit (name op), Lit '' (t='', Num (timing op),
               Lit '' to '', Num t_end, Lit ('')'' @ [CHR 0x0A] @ ''data=''), Dict (data op),
               Lit '' caused this exception to occur.''])"
    if "data op ''duration'' = Some v" "py_add_real (timing op) v = Inr t_end" for v t_end
    unfolding sel using that acq by (simp add: OpInfo_repr_def getitem_def)
  from raises msg show ?thesis
    by blast
qed

theorem trace_append_rejected_witness:
  "data trace_op ''protocol'' = Some (PStr ''Trace'')
   \<and> data trace_op ''bin_mode'' = Some (PBinMode BinMode_APPEND)
   \<and> get_operation_strategy trace_op True IoMode_COMPLEX =
       Inl (ValueError
              [Lit (''Trace acquisition does not support APPEND bin mode.''
                    @ [CHR 0x0A, CHR 0x0A]),
               Lit ''Acquisition'', Lit '' '', Lit ''Trace'', Lit '' (t='', Num 0,
               Lit '' to '', Num (1 / 10 ^ 6), Lit ('')'' @ [CHR 0x0A] @ ''data=''),
               Dict (data trace_op),
               Lit '' caused this exception to occur.''])"
proof -
  have p: "data trace_op ''protocol'' = Some (PStr ''Trace'')"
    by (simp add: trace_op_def)
  have b: "data trace_op ''bin_mode'' = Some (PBinMode BinMode_APPEND)"
    by (simp add: trace_op_def)
  have d: "data trace_op ''duration'' = Some (PFloat (1 / 10 ^ 6))"
    by (simp add: trace_op_def)
  have a: "py_add_real (timing trace_op) (PFloat (1 / 10 ^ 6)) = Inr (1 / 10 ^ 6)"
    by (simp add: trace_op_def py_add_real_def)
  have n: "name trace_op = ''Trace''" "timing trace_op = 0"
    by (simp_all add: trace_op_def)
  from trace_append_rejected [OF p b, of True IoMode_COMPLEX] d a
  have "get_operation_strategy trace_op True IoMode_COMPLEX =
       Inl (ValueError
              [Lit (''Trace acquisition does not support APPEND bin mode.''
                    @ [CHR 0x0A, CHR 0x0A]),
               Lit ''Acquisition'', Lit '' '', Lit (name trace_op), Lit '' (t='', Num (timing trace_op),
               Lit '' to '', Num (1 / 10 ^ 6), Lit ('')'' @ [CHR 0x0A] @ ''data=''),
               Dict (data trace_op),
               Lit '' caused this exception to occur.''])"
    by blast
  with p b n show ?thesis
    by simp
qed

lemma marker_op_plain:
  "\<not> is_acquisition marker_op" "\<not> is_offset_instruction marker_op"
  "\<not> is_parameter_update marker_op"
  "getitem (data marker_op) ''port'' = Inr (PStr ''q0:switch'')"
  "getitem (data marker_op) ''wf_func'' = Inr PNone"
  by (simp_all add: marker_op_def is_acquisition_def is_offset_instruction_def
      is_parameter_update_def contains_def getitem_def)

text \<open>
  Claim C4 does not hold of the code. With instruction-generated pulses enabled, a
  \<^verbatim>\<open>MarkerPulse\<close> on a port, whose waveform function is \<^verbatim>\<open>None\<close>, is given the
  generic strategy: the \<^verbatim>\<open>elif\<close> that tests for a marker pulse is skipped once the
  \<^verbatim>\<open>elif instruction_generated_pulses_enabled\<close> before it is entered. With the
  generation disabled the same operation is given the marker strategy.
\<close>

theorem marker_pulse_generic_when_enabled:
  "get_operation_strategy marker_op True io_mode = Inr (GenericPulseStrategy marker_op io_mode)
   \<and> get_operation_strategy marker_op False io_mode = Inr (MarkerPulseStrategy marker_op io_mode)"
  by (simp add: get_operation_strategy_def get_pulse_strategy_def marker_op_plain)
    (simp add: marker_op_def)

lemma get_pulse_strategy_enabled_not_reserved:
  assumes "\<not> is_acquisition op" "\<not> is_offset_instruction op" "\<not> is_parameter_update op"
    and "data op ''port'' = Some port" "port \<noteq> PNone"
    and "data op ''wf_func'' = Some wf_func"
    and "wf_func \<noteq> PStr ''quantify_scheduler.waveforms.square''"
    and "wf_func \<noteq> PStr ''quantify_scheduler.waveforms.staircase''"
  shows "get_operation_strategy op True io_mode = Inr (GenericPulseStrategy op io_mode)"
  using assms
  by (simp add: get_operation_strategy_def get_pulse_strategy_def getitem_def)

lemma get_pulse_strategy_disabled_marker:
  assumes "\<not> is_acquisition op" "\<not> is_offset_instruction op" "\<not> is_parameter_update op"
    and "data op ''port'' = Some port" "port \<noteq> PNone"
    and "name op = ''MarkerPulse''"
  shows "get_operation_strategy op False io_mode = Inr (MarkerPulseStrategy op io_mode)"
  using assms
  by (simp add: get_operation_strategy_def get_pulse_strategy_def getitem_def)


section \<open>The stitched square pulse strategy: properties\<close>





text \<open>A pulse of no duration emits the gain instruction alone.\<close>

lemma insert_qasm_zero:
  "insert_qasm 1000 ''test_pulse'' (13107, 0) (0, 1) 0 1 0 = [set_gain ''test_pulse'' (13107, 0)]"
  by (simp add: insert_qasm_def)

section \<open>The stitched pulse builder: properties\<close>

subsection \<open>Adding a voltage offset\<close>

text \<open>
  Claim C10. Whenever \<^verbatim>\<open>add_voltage_offset\<close> raises, for any reason, the builder is
  left exactly as it was: its pulses, its offsets and its \<^verbatim>\<open>operation_end\<close> are
  unchanged.
\<close>

theorem add_voltage_offset_atomic:
  assumes "fst (add_voltage_offset p0 p1 dur rel_time app min_duration h b) = Inl e"
  shows "snd (add_voltage_offset p0 p1 dur rel_time app min_duration h b) = b
    \<and> b_pulses (snd (add_voltage_offset p0 p1 dur rel_time app min_duration h b)) = b_pulses b
    \<and> b_offsets (snd (add_voltage_offset p0 p1 dur rel_time app min_duration h b)) = b_offsets b
    \<and> operation_end h (snd (add_voltage_offset p0 p1 dur rel_time app min_duration h b))
        = operation_end h b"
proof -
  have "snd (add_voltage_offset p0 p1 dur rel_time app min_duration h b) = b"
    using assms
    by (auto simp: add_voltage_offset_def Let_def split: sum.splits if_splits option.splits)
  then show ?thesis
    by simp
qed

text \<open>The two errors of the claim: an overlap, and a duration below the minimum.\<close>

theorem add_voltage_offset_atomic_witness:
  "fst (add_voltage_offset (1 / 4) 0 (Some 1) (1 / 2) False (4 / 10 ^ 9) empty_store one_offset)
     = Inl (RuntimeError
          [Lit (''Tried to add offset that overlaps with existing offsets in the ''
                @ ''StitchedPulse.'')])
   \<and> snd (add_voltage_offset (1 / 4) 0 (Some 1) (1 / 2) False (4 / 10 ^ 9) empty_store one_offset)
     = one_offset
   \<and> fst (add_voltage_offset (1 / 4) 0 (Some (1 / 10 ^ 9)) 0 True (4 / 10 ^ 9) empty_store one_offset)
     = Inl (ValueError [Lit ''Minimum duration of a voltage offset is '',
                              Num (4 / 10 ^ 9), Lit '' ns''])
   \<and> snd (add_voltage_offset (1 / 4) 0 (Some (1 / 10 ^ 9)) 0 True (4 / 10 ^ 9) empty_store one_offset)
     = one_offset"
proof -
  have e1: "fst (add_voltage_offset (1 / 4) 0 (Some 1) (1 / 2) False (4 / 10 ^ 9) empty_store one_offset)
     = Inl (RuntimeError
          [Lit (''Tried to add offset that overlaps with existing offsets in the ''
                @ ''StitchedPulse.'')])"
    by (simp add: add_voltage_offset_def overlaps_with_existing_offsets_def one_offset_def
        new_builder_def this_end_def duration_or_zero_def)
  have e2: "fst (add_voltage_offset (1 / 4) 0 (Some (1 / 10 ^ 9)) 0 True (4 / 10 ^ 9) empty_store one_offset)
     = Inl (ValueError [Lit ''Minimum duration of a voltage offset is '',
                              Num (4 / 10 ^ 9), Lit '' ns''])"
    by (simp add: add_voltage_offset_def one_offset_def operation_end_def py_max_def
        new_builder_def this_end_def duration_or_zero_def)
  from e1 e2 add_voltage_offset_atomic [OF e1] add_voltage_offset_atomic [OF e2]
  show ?thesis
    by simp
qed

lemma overlaps_loop_sorted_wrt:
  "sorted (map t0 xs) \<Longrightarrow> \<not> overlaps_loop xs \<Longrightarrow> sorted_wrt (\<lambda>a b. this_end a \<le> t0 b) xs"
proof (induction xs rule: overlaps_loop.induct)
  case (1 offs nxt rest)
  from "1.prems" have no: "\<not> t0 nxt < this_end offs" and rest: "\<not> overlaps_loop (nxt # rest)"
    by (auto split: if_splits)
  from "1.prems"(1) have srt: "sorted (map t0 (nxt # rest))" and le: "\<forall>z \<in> set rest. t0 nxt \<le> t0 z"
    by auto
  from "1.IH" [OF no srt rest] have ih: "sorted_wrt (\<lambda>a b. this_end a \<le> t0 b) (nxt # rest)" .
  from no le have "\<forall>z \<in> set (nxt # rest). this_end offs \<le> t0 z"
    by fastforce
  with ih show ?case
    by simp
qed simp_all

lemma sorted_wrt_distinct_pair:
  "sorted_wrt P s \<Longrightarrow> x \<in> set s \<Longrightarrow> y \<in> set s \<Longrightarrow> x \<noteq> y \<Longrightarrow> P x y \<or> P y x"
  by (induction s) auto

lemma sorted_wrt_twice:
  "sorted_wrt P s \<Longrightarrow> 2 \<le> count (mset s) x \<Longrightarrow> P x x"
proof (induction s)
  case Nil
  then show ?case by simp
next
  case (Cons a s)
  show ?case
  proof (cases "a = x")
    case True
    with Cons.prems(2) have "1 \<le> count (mset s) x"
      by simp
    then have "x \<in> set s"
      by (simp add: count_greater_zero_iff [symmetric] del: count_greater_zero_iff)
    with Cons.prems(1) True show ?thesis
      by simp
  next
    case False
    with Cons show ?thesis
      by simp
  qed
qed

lemma count_twice:
  assumes "i < j" "j < length xs" "xs ! i = xs ! j"
  shows "2 \<le> count (mset xs) (xs ! i)"
proof -
  have split: "xs = take j xs @ xs ! j # drop (Suc j) xs"
    using assms(2) by (rule id_take_nth_drop)
  have "xs ! i \<in> set (take j xs)"
    using assms(1,2) by (auto simp: in_set_conv_nth intro!: exI [of _ i])
  then have "1 \<le> count (mset (take j xs)) (xs ! i)"
    by (simp add: Suc_le_eq)
  moreover have "count (mset xs) (xs ! i) =
      count (mset (take j xs)) (xs ! i) + count (mset (xs ! j # drop (Suc j) xs)) (xs ! i)"
    by (subst split) simp
  moreover have "1 \<le> count (mset (xs ! j # drop (Suc j) xs)) (xs ! i)"
    using assms(3) by simp
  ultimately show ?thesis
    by linarith
qed

lemma sorted_wrt_any_pair:
  assumes "sorted_wrt P s" "mset s = mset xs" "i < j" "j < length xs"
  shows "P (xs ! i) (xs ! j) \<or> P (xs ! j) (xs ! i)"
proof (cases "xs ! i = xs ! j")
  case True
  from count_twice [OF assms(3,4) True] have "2 \<le> count (mset s) (xs ! i)"
    by (simp add: assms(2))
  with assms(1) have "P (xs ! i) (xs ! i)"
    by (rule sorted_wrt_twice)
  with True show ?thesis
    by simp
next
  case False
  have "set s = set xs"
    using assms(2) by (rule mset_eq_setD)
  then have "xs ! i \<in> set s" "xs ! j \<in> set s"
    using assms(3,4) by auto
  with assms(1) False show ?thesis
    by (intro sorted_wrt_distinct_pair)
qed

lemma no_overlap_pairwise:
  assumes "\<not> overlaps_loop (sort_key t0 xs)" "i < j" "j < length xs"
  shows "this_end (xs ! i) \<le> t0 (xs ! j) \<or> this_end (xs ! j) \<le> t0 (xs ! i)"
proof -
  have "sorted (map t0 (sort_key t0 xs))"
    by (rule sorted_sort_key)
  with assms(1) have "sorted_wrt (\<lambda>a b. this_end a \<le> t0 b) (sort_key t0 xs)"
    by (intro overlaps_loop_sorted_wrt)
  moreover have "mset (sort_key t0 xs) = mset xs"
    by simp
  ultimately show ?thesis
    using assms(2,3) by (rule sorted_wrt_any_pair)
qed

lemma add_voltage_offset_success:
  assumes "add_voltage_offset p0 p1 dur rel_time app min_duration h b = (Inr (), b')"
  shows "\<exists>off. b_offsets b' = b_offsets b @ [off] \<and> path_0 off = p0 \<and> path_1 off = p1
      \<and> duration off = dur \<and> \<not> overlaps_loop (sort_key t0 (b_offsets b')) 
      \<and> b' = b\<lparr>b_offsets := b_offsets b @ [off]\<rparr>
      \<and> (if app then operation_end h b = Inr (t0 off - rel_time) else t0 off = rel_time)
      \<and> (\<forall>d. dur = Some d \<longrightarrow> min_duration \<le> d)"
  using assms
  by (auto simp: add_voltage_offset_def Let_def overlaps_with_existing_offsets_def
      split: sum.splits if_splits option.splits)

text \<open>
  Claim C2, as amended. A segment ends at \<^verbatim>\<open>t0 + (duration or 0.0)\<close>: an open-ended
  segment counts as the empty interval at its start. When \<^verbatim>\<open>add_voltage_offset\<close>
  returns, the new segment is the last of the builder's offsets and, of any two offsets
  the builder holds, one ends no later than the other starts, so the intervals
  \<open>[t0, this_end)\<close> of the recorded segments are pairwise disjoint. And when the
  interval of the new segment, at the start time the call computes, meets the interval
  of a segment added before, the call raises.
\<close>

theorem add_voltage_offset_disjoint:
  "(\<forall>b'. add_voltage_offset p0 p1 dur rel_time app min_duration h b = (Inr (), b') \<longrightarrow>
      (\<exists>off. b_offsets b' = b_offsets b @ [off] \<and> path_0 off = p0 \<and> path_1 off = p1
            \<and> duration off = dur)
      \<and> (\<forall>i j. i < j \<and> j < length (b_offsets b') \<longrightarrow>
          (this_end (b_offsets b' ! i) \<le> t0 (b_offsets b' ! j)
             \<or> this_end (b_offsets b' ! j) \<le> t0 (b_offsets b' ! i))
          \<and> {t0 (b_offsets b' ! i) ..< this_end (b_offsets b' ! i)}
              \<inter> {t0 (b_offsets b' ! j) ..< this_end (b_offsets b' ! j)} = {}))
   \<and> (\<forall>start old.
        (if app then operation_end h b = Inr (start - rel_time) else start = rel_time)
        \<and> old \<in> set (b_offsets b)
        \<and> {t0 old ..< this_end old} \<inter> {start ..< start + duration_or_zero dur} \<noteq> {}
        \<longrightarrow> (\<exists>e. fst (add_voltage_offset p0 p1 dur rel_time app min_duration h b) = Inl e))"
proof -
  have accepted: "(\<exists>off. b_offsets b' = b_offsets b @ [off] \<and> path_0 off = p0 \<and> path_1 off = p1
            \<and> duration off = dur)
      \<and> (\<forall>i j. i < j \<and> j < length (b_offsets b') \<longrightarrow>
          (this_end (b_offsets b' ! i) \<le> t0 (b_offsets b' ! j)
             \<or> this_end (b_offsets b' ! j) \<le> t0 (b_offsets b' ! i))
          \<and> {t0 (b_offsets b' ! i) ..< this_end (b_offsets b' ! i)}
              \<inter> {t0 (b_offsets b' ! j) ..< this_end (b_offsets b' ! j)} = {})"
    if ok: "add_voltage_offset p0 p1 dur rel_time app min_duration h b = (Inr (), b')" for b'
  proof -
    from add_voltage_offset_success [OF ok] obtain off where
      off: "b_offsets b' = b_offsets b @ [off]" "path_0 off = p0" "path_1 off = p1"
        "duration off = dur" and no: "\<not> overlaps_loop (sort_key t0 (b_offsets b'))"
      by blast
    have "(this_end (b_offsets b' ! i) \<le> t0 (b_offsets b' ! j)
               \<or> this_end (b_offsets b' ! j) \<le> t0 (b_offsets b' ! i))
            \<and> {t0 (b_offsets b' ! i) ..< this_end (b_offsets b' ! i)}
              \<inter> {t0 (b_offsets b' ! j) ..< this_end (b_offsets b' ! j)} = {}"
      if "i < j" "j < length (b_offsets b')" for i j
      using no_overlap_pairwise [OF no that] by auto
    with off show ?thesis
      by blast
  qed
  have rejected: "\<exists>e. fst (add_voltage_offset p0 p1 dur rel_time app min_duration h b) = Inl e"
    if start: "if app then operation_end h b = Inr (start - rel_time) else start = rel_time"
      and old: "old \<in> set (b_offsets b)"
      and meet: "{t0 old ..< this_end old} \<inter> {start ..< start + duration_or_zero dur} \<noteq> {}"
    for start old
  proof (rule ccontr)
    assume "\<nexists>e. fst (add_voltage_offset p0 p1 dur rel_time app min_duration h b) = Inl e"
    then obtain b' where
      ok: "add_voltage_offset p0 p1 dur rel_time app min_duration h b = (Inr (), b')"
      by (cases "add_voltage_offset p0 p1 dur rel_time app min_duration h b";
          cases "fst (add_voltage_offset p0 p1 dur rel_time app min_duration h b)") auto
    from add_voltage_offset_success [OF ok] obtain off where
      off: "b_offsets b' = b_offsets b @ [off]" "duration off = dur"
      and at: "if app then operation_end h b = Inr (t0 off - rel_time) else t0 off = rel_time"
      by blast
    from start at have t: "t0 off = start"
      by (auto split: if_splits)
    from old obtain i where i: "i < length (b_offsets b)" "b_offsets b ! i = old"
      by (auto simp: in_set_conv_nth)
    let ?j = "length (b_offsets b)"
    from accepted [OF ok] have pw: "\<forall>i j. i < j \<and> j < length (b_offsets b') \<longrightarrow>
        {t0 (b_offsets b' ! i) ..< this_end (b_offsets b' ! i)}
          \<inter> {t0 (b_offsets b' ! j) ..< this_end (b_offsets b' ! j)} = {}"
      by blast
    have "i < ?j \<and> ?j < length (b_offsets b')"
      using i(1) off(1) by simp
    with pw have "{t0 (b_offsets b' ! i) ..< this_end (b_offsets b' ! i)}
        \<inter> {t0 (b_offsets b' ! ?j) ..< this_end (b_offsets b' ! ?j)} = {}"
      by blast
    moreover have "b_offsets b' ! i = old" "b_offsets b' ! ?j = off"
      using i off(1) by (simp_all add: nth_append)
    moreover have "this_end off = start + duration_or_zero dur"
      using t off(2) by (simp add: this_end_def)
    ultimately show False
      using meet t by simp
  qed
  from accepted rejected show ?thesis
    by blast
qed

text \<open>
  A second offset appended at the end of the first is accepted and the two intervals are
  disjoint; one that starts in the middle of the first is refused.
\<close>

theorem add_voltage_offset_disjoint_witness:
  "add_voltage_offset (1 / 4) 0 (Some 1) 0 True (4 / 10 ^ 9) empty_store one_offset
     = (Inr (), one_offset\<lparr>b_offsets :=
          [\<lparr>path_0 = 1 / 2, path_1 = 0, t0 = 0, duration = Some 1\<rparr>,
           \<lparr>path_0 = 1 / 4, path_1 = 0, t0 = 1, duration = Some 1\<rparr>]\<rparr>)
   \<and> {0 ..< 1 :: real} \<inter> {1 ..< 2} = {}
   \<and> (\<exists>e. fst (add_voltage_offset (1 / 4) 0 (Some 1) (1 / 2) False (4 / 10 ^ 9)
               empty_store one_offset) = Inl e)"
proof -
  let ?b = "one_offset\<lparr>b_offsets :=
          [\<lparr>path_0 = 1 / 2, path_1 = 0, t0 = 0, duration = Some 1\<rparr>,
           \<lparr>path_0 = 1 / 4, path_1 = 0, t0 = 1, duration = Some 1\<rparr>]\<rparr>"
  let ?old = "\<lparr>path_0 = 1 / 2, path_1 = 0, t0 = 0, duration = Some 1\<rparr>"
  have ok: "add_voltage_offset (1 / 4) 0 (Some 1) 0 True (4 / 10 ^ 9) empty_store one_offset
     = (Inr (), ?b)"
    by (simp add: add_voltage_offset_def overlaps_with_existing_offsets_def one_offset_def
        new_builder_def this_end_def duration_or_zero_def operation_end_def py_max_def)
  from add_voltage_offset_disjoint
    [of "1 / 4" 0 "Some 1" 0 True "4 / 10 ^ 9" empty_store one_offset] ok
  have pw: "\<forall>i j. i < j \<and> j < length (b_offsets ?b) \<longrightarrow>
      {t0 (b_offsets ?b ! i) ..< this_end (b_offsets ?b ! i)}
        \<inter> {t0 (b_offsets ?b ! j) ..< this_end (b_offsets ?b ! j)} = {}"
    by blast
  have "(0::nat) < 1 \<and> 1 < length (b_offsets ?b)"
    by simp
  with pw have "{t0 (b_offsets ?b ! 0) ..< this_end (b_offsets ?b ! 0)}
      \<inter> {t0 (b_offsets ?b ! 1) ..< this_end (b_offsets ?b ! 1)} = {}"
    by blast
  then have disj: "{0 ..< 1 :: real} \<inter> {1 ..< 2} = {}"
    by (simp add: this_end_def duration_or_zero_def)
  have old: "?old \<in> set (b_offsets one_offset)"
    by (simp add: one_offset_def new_builder_def)
  have meet: "{t0 ?old ..< this_end ?old} \<inter> {1 / 2 ..< 1 / 2 + duration_or_zero (Some 1)} \<noteq> {}"
    by (simp add: this_end_def duration_or_zero_def)
  have start: "if False then operation_end empty_store one_offset = Inr (1 / 2 - 1 / 2)
      else (1 / 2 :: real) = 1 / 2"
    by simp
  from add_voltage_offset_disjoint
    [of "1 / 4" 0 "Some 1" "1 / 2" False "4 / 10 ^ 9" empty_store one_offset]
    start old meet
  have "\<exists>e. fst (add_voltage_offset (1 / 4) 0 (Some 1) (1 / 2) False (4 / 10 ^ 9)
               empty_store one_offset) = Inl e"
    by blast
  with ok disj show ?thesis
    by simp
qed

text \<open>
  Claim C2 as stated has an open-ended segment occupy the time up to the end of the
  stitched pulse. The builder accepts a bounded segment from 1 to 2 on top of an
  open-ended segment that starts at 0, although the end of the operation is then 2.
\<close>

theorem add_voltage_offset_over_open_ended:
  "add_voltage_offset (1 / 2) 0 (Some 1) 1 False (4 / 10 ^ 9) empty_store open_offset
     = (Inr (), open_offset\<lparr>b_offsets :=
          [\<lparr>path_0 = 1 / 4, path_1 = 0, t0 = 0, duration = None\<rparr>,
           \<lparr>path_0 = 1 / 2, path_1 = 0, t0 = 1, duration = Some 1\<rparr>]\<rparr>)
   \<and> operation_end empty_store (open_offset\<lparr>b_offsets :=
          [\<lparr>path_0 = 1 / 4, path_1 = 0, t0 = 0, duration = None\<rparr>,
           \<lparr>path_0 = 1 / 2, path_1 = 0, t0 = 1, duration = Some 1\<rparr>]\<rparr>) = Inr 2
   \<and> (1 :: real) \<in> {0 ..< 2} \<inter> {1 ..< 1 + 1}"
  by (simp add: add_voltage_offset_def overlaps_with_existing_offsets_def open_offset_def
      new_builder_def this_end_def duration_or_zero_def operation_end_def py_max_def)

subsection \<open>Adding a pulse\<close>

lemma copy_infos_frame:
  assumes "copy_infos h memo rs = (ns, h')" "N \<le> next_addr h" "\<forall>n \<in> snd ` set memo. N \<le> n"
  shows "operations h' = operations h \<and> next_addr h \<le> next_addr h'
    \<and> (\<forall>a < N. infos h' a = infos h a) \<and> (\<forall>n \<in> set ns. N \<le> n)"
  using assms
proof (induction rs arbitrary: h memo ns h')
  case Nil
  then show ?case by simp
next
  case (Cons r rs)
  show ?case
  proof (cases "map_of memo r")
    case (Some n)
    then have n: "N \<le> n"
      using Cons.prems(3) by (force dest: map_of_SomeD)
    from Cons.prems(1) Some obtain ns1 where
      rec: "copy_infos h memo rs = (ns1, h')" and ns: "ns = n # ns1"
      by (auto split: prod.splits)
    from Cons.IH [OF rec Cons.prems(2,3)] n ns show ?thesis
      by simp
  next
    case None
    let ?n = "next_addr h"
    let ?h1 = "h\<lparr>infos := (infos h)(?n := infos h r), next_addr := Suc ?n\<rparr>"
    from Cons.prems(1) None obtain ns1 where
      rec: "copy_infos ?h1 ((r, ?n) # memo) rs = (ns1, h')" and ns: "ns = ?n # ns1"
      by (auto simp: Let_def split: prod.splits)
    have b1: "N \<le> next_addr ?h1"
      using Cons.prems(2) by simp
    have b2: "\<forall>n \<in> snd ` set ((r, ?n) # memo). N \<le> n"
      using Cons.prems(2,3) by simp
    from Cons.IH [OF rec b1 b2]
    have ih: "operations h' = operations ?h1" "next_addr ?h1 \<le> next_addr h'"
      "\<forall>a < N. infos h' a = infos ?h1 a" "\<forall>n \<in> set ns1. N \<le> n"
      by simp_all
    have "\<forall>a < N. infos ?h1 a = infos h a"
      using Cons.prems(2) by simp
    with ih ns Cons.prems(2) show ?thesis
      by simp
  qed
qed

lemma shift_loop_frame:
  assumes "shift_loop b rs h = (res, h')" "\<forall>r \<in> set rs. N \<le> r"
  shows "operations h' = operations h \<and> next_addr h' = next_addr h
    \<and> (\<forall>a < N. infos h' a = infos h a)"
  using assms
proof (induction rs arbitrary: h)
  case Nil
  then show ?case by simp
next
  case (Cons r rs)
  show ?case
  proof (cases "operation_end h b")
    case (Inl e)
    with Cons.prems(1) show ?thesis by simp
  next
    case (Inr oe)
    let ?h1 = "h\<lparr>infos := (infos h)(r := (infos h r)\<lparr>pi_t0 := pi_t0 (infos h r) + oe\<rparr>)\<rparr>"
    from Cons.prems(1) Inr have rec: "shift_loop b rs ?h1 = (res, h')"
      by simp
    from Cons.prems(2) have rs: "\<forall>r \<in> set rs. N \<le> r" and r: "N \<le> r"
      by simp_all
    from Cons.IH [OF rec rs] r show ?thesis
      by simp
  qed
qed

lemma deepcopy_frame:
  assumes "deepcopy h p = (c, h1)"
  shows "next_addr h \<le> c \<and> c < next_addr h1
    \<and> (\<forall>a < next_addr h. operations h1 a = operations h a \<and> infos h1 a = infos h a)
    \<and> (\<forall>r \<in> set (op_pulse_info (operations h1 c)). next_addr h \<le> r)"
proof -
  obtain ns h0 where ci: "copy_infos h [] (op_pulse_info (operations h p)) = (ns, h0)"
    by (cases "copy_infos h [] (op_pulse_info (operations h p))")
  from copy_infos_frame [OF ci, of "next_addr h"]
  have fr: "operations h0 = operations h" "next_addr h \<le> next_addr h0"
    "\<forall>a < next_addr h. infos h0 a = infos h a" "\<forall>n \<in> set ns. next_addr h \<le> n"
    by simp_all
  from assms ci have c: "c = next_addr h0"
    and h1: "h1 = h0\<lparr>operations := (operations h0)(next_addr h0 := (operations h p)\<lparr>op_pulse_info := ns\<rparr>),
                next_addr := Suc (next_addr h0)\<rparr>"
    by (auto simp: deepcopy_def Let_def)
  from fr show ?thesis
    unfolding c h1 by simp
qed

text \<open>
  Claim C9. Whatever \<^verbatim>\<open>add_pulse\<close> does, whether it returns or raises and in either
  mode, every object that was allocated before the call is afterwards as it was. In
  particular the caller's operation and its pulse info dictionaries, \<open>t0\<close> included,
  are unchanged. When the call returns, the builder has gained a reference to a newly
  allocated object, the clone, and not to the caller's operation.
\<close>

theorem add_pulse_frame:
  assumes "add_pulse pulse app h b = (res, h', b')"
  shows "(\<forall>a < next_addr h. operations h' a = operations h a \<and> infos h' a = infos h a)
    \<and> (pulse < next_addr h \<and> (\<forall>r \<in> set (op_pulse_info (operations h pulse)). r < next_addr h)
        \<longrightarrow> operations h' pulse = operations h pulse
          \<and> map (infos h') (op_pulse_info (operations h' pulse))
              = map (infos h) (op_pulse_info (operations h pulse)))
    \<and> (b' = b \<or> (\<exists>c. next_addr h \<le> c \<and> b' = b\<lparr>b_pulses := b_pulses b @ [c]\<rparr>))"
proof -
  have main: "(\<forall>a < next_addr h. operations h' a = operations h a \<and> infos h' a = infos h a)
     \<and> (b' = b \<or> (\<exists>c. next_addr h \<le> c \<and> b' = b\<lparr>b_pulses := b_pulses b @ [c]\<rparr>))"
  proof (cases "valid_acquisition (operations h pulse) \<or> valid_gate (operations h pulse)
      \<or> length (logic_info (operations h pulse)) > 0 \<or> has_voltage_offset (operations h pulse)")
    case True
    with assms have "h' = h" "b' = b"
      by (auto simp: add_pulse_def split: if_splits)
    then show ?thesis by simp
  next
    case False
    obtain c h1 where dc: "deepcopy h pulse = (c, h1)"
      by (cases "deepcopy h pulse")
    from deepcopy_frame [OF dc]
    have fr: "next_addr h \<le> c"
      "\<forall>a < next_addr h. operations h1 a = operations h a \<and> infos h1 a = infos h a"
      "\<forall>r \<in> set (op_pulse_info (operations h1 c)). next_addr h \<le> r"
      by simp_all
    show ?thesis
    proof (cases app)
      case True
      obtain r2 h2 where sl: "shift_loop b (op_pulse_info (operations h1 c)) h1 = (r2, h2)"
        by (cases "shift_loop b (op_pulse_info (operations h1 c)) h1")
      from shift_loop_frame [OF sl fr(3)]
      have fr2: "operations h2 = operations h1" "\<forall>a < next_addr h. infos h2 a = infos h1 a"
        by simp_all
      from assms False dc True sl have "h' = h2" 
        and "b' = b \<or> b' = b\<lparr>b_pulses := b_pulses b @ [c]\<rparr>"
        by (auto simp: add_pulse_def split: sum.splits)
      with fr fr2 show ?thesis
        by auto
    next
      case noapp: False
      from assms False dc noapp have "h' = h1" "b' = b\<lparr>b_pulses := b_pulses b @ [c]\<rparr>"
        by (auto simp: add_pulse_def)
      with fr show ?thesis
        by auto
    qed
  qed
  then have fr: "\<forall>a < next_addr h. operations h' a = operations h a \<and> infos h' a = infos h a"
    by simp
  have "operations h' pulse = operations h pulse
          \<and> map (infos h') (op_pulse_info (operations h' pulse))
              = map (infos h) (op_pulse_info (operations h pulse))"
    if "pulse < next_addr h" "\<forall>r \<in> set (op_pulse_info (operations h pulse)). r < next_addr h"
    using fr that by simp
  with main show ?thesis
    by blast
qed

text \<open>
  Appending the caller's operation to a builder whose operation ends at time 1: the
  clone at address 3 has its dictionary, at address 2, shifted to start at 1; the
  caller's dictionary at address 1 still starts at 0.
\<close>

theorem add_pulse_frame_witness:
  "fst (add_pulse 0 True caller_store one_offset) = Inr ()
   \<and> b_pulses (snd (snd (add_pulse 0 True caller_store one_offset))) = [3]
   \<and> op_pulse_info (operations (fst (snd (add_pulse 0 True caller_store one_offset))) 3) = [2]
   \<and> pi_t0 (infos (fst (snd (add_pulse 0 True caller_store one_offset))) 2) = 1
   \<and> operations (fst (snd (add_pulse 0 True caller_store one_offset))) 0 = caller_operation
   \<and> infos (fst (snd (add_pulse 0 True caller_store one_offset))) 1 = caller_info
   \<and> pi_t0 caller_info = 0"
proof -
  let ?h = "fst (snd (add_pulse 0 True caller_store one_offset))"
  let ?b = "snd (snd (add_pulse 0 True caller_store one_offset))"
  have oe: "operation_end h one_offset = Inr 1" for h
    by (simp add: operation_end_def one_offset_def new_builder_def py_max_def
        duration_or_zero_def)
  have cs: "operations caller_store 0 = caller_operation" "infos caller_store 1 = caller_info"
    "infos caller_store (Suc 0) = caller_info" "next_addr caller_store = 2"
    by (simp_all add: caller_store_def)
  have dc: "deepcopy caller_store 0 =
      (3, caller_store\<lparr>infos := (infos caller_store)(2 := caller_info),
            operations := (operations caller_store)(3 := caller_operation\<lparr>op_pulse_info := [2]\<rparr>),
            next_addr := 4\<rparr>)"
    by (simp add: deepcopy_def cs caller_operation_def Let_def)
  have run: "add_pulse 0 True caller_store one_offset =
      (Inr (),
       caller_store\<lparr>infos := (infos caller_store)(2 := caller_info\<lparr>pi_t0 := 1\<rparr>),
            operations := (operations caller_store)(3 := caller_operation\<lparr>op_pulse_info := [2]\<rparr>),
            next_addr := 4\<rparr>,
       one_offset\<lparr>b_pulses := [3]\<rparr>)"
    by (simp add: add_pulse_def cs dc oe)
      (simp add: caller_operation_def caller_info_def one_offset_def new_builder_def)
  have fr: "\<forall>a < next_addr caller_store.
      operations ?h a = operations caller_store a \<and> infos ?h a = infos caller_store a"
    using add_pulse_frame [of 0 True caller_store one_offset "fst (add_pulse 0 True caller_store one_offset)" ?h ?b]
    by simp
  then have "operations ?h 0 = caller_operation" "infos ?h 1 = caller_info"
    by (simp_all add: cs)
  moreover have "fst (add_pulse 0 True caller_store one_offset) = Inr ()" "b_pulses ?b = [3]"
    "op_pulse_info (operations ?h 3) = [2]" "pi_t0 (infos ?h 2) = 1"
    by (simp_all add: run)
  moreover have "pi_t0 caller_info = 0"
    by (simp add: caller_info_def)
  ultimately show ?thesis
    by simp
qed

lemma copy_infos_preserves:
  assumes "copy_infos h memo rs = (ns, h')"
  shows "next_addr h \<le> next_addr h' \<and> (\<forall>a < next_addr h. infos h' a = infos h a)"
  using assms
proof (induction rs arbitrary: h memo ns h')
  case Nil
  then show ?case by simp
next
  case (Cons r rs)
  show ?case
  proof (cases "map_of memo r")
    case (Some n)
    from Cons.prems Some obtain ns1 where "copy_infos h memo rs = (ns1, h')"
      by (auto split: prod.splits)
    then show ?thesis
      by (rule Cons.IH)
  next
    case None
    let ?n = "next_addr h"
    let ?h1 = "h\<lparr>infos := (infos h)(?n := infos h r), next_addr := Suc ?n\<rparr>"
    from Cons.prems None obtain ns1 where
      rec: "copy_infos ?h1 ((r, ?n) # memo) rs = (ns1, h')"
      by (auto simp: Let_def split: prod.splits)
    from Cons.IH [OF rec] show ?thesis
      by simp
  qed
qed

lemma copy_infos_content:
  assumes "copy_infos h memo rs = (ns, h')"
    and "\<forall>r \<in> set rs. r < next_addr h"
    and "\<forall>(r, n) \<in> set memo. r < next_addr h \<and> n < next_addr h \<and> infos h n = infos h r"
  shows "map (infos h') ns = map (infos h) rs \<and> length ns = length rs"
  using assms
proof (induction rs arbitrary: h memo ns h')
  case Nil
  then show ?case by simp
next
  case (Cons r rs)
  show ?case
  proof (cases "map_of memo r")
    case (Some n)
    then have mem: "(r, n) \<in> set memo"
      by (rule map_of_SomeD)
    with Cons.prems(3) have n: "n < next_addr h" "infos h n = infos h r"
      by auto
    from Cons.prems(1) Some obtain ns1 where
      rec: "copy_infos h memo rs = (ns1, h')" and ns: "ns = n # ns1"
      by (auto split: prod.splits)
    from Cons.prems(2) have rs: "\<forall>r \<in> set rs. r < next_addr h"
      by simp
    from Cons.IH [OF rec rs Cons.prems(3)]
    have ih: "map (infos h') ns1 = map (infos h) rs" "length ns1 = length rs"
      by simp_all
    from copy_infos_preserves [OF rec]
    have "\<forall>a < next_addr h. infos h' a = infos h a"
      by simp
    with n have "infos h' n = infos h r"
      by simp
    with ih ns show ?thesis
      by simp
  next
    case None
    let ?n = "next_addr h"
    let ?h1 = "h\<lparr>infos := (infos h)(?n := infos h r), next_addr := Suc ?n\<rparr>"
    from Cons.prems(1) None obtain ns1 where
      rec: "copy_infos ?h1 ((r, ?n) # memo) rs = (ns1, h')" and ns: "ns = ?n # ns1"
      by (auto simp: Let_def split: prod.splits)
    from Cons.prems(2) have r: "r < ?n" and rs: "\<forall>r \<in> set rs. r < next_addr ?h1"
      by auto
    have memo1: "\<forall>(r', n) \<in> set ((r, ?n) # memo).
        r' < next_addr ?h1 \<and> n < next_addr ?h1 \<and> infos ?h1 n = infos ?h1 r'"
      using Cons.prems(3) r by auto
    from Cons.IH [OF rec rs memo1]
    have ih: "map (infos h') ns1 = map (infos ?h1) rs" "length ns1 = length rs"
      by simp_all
    have "map (infos ?h1) rs = map (infos h) rs"
      using Cons.prems(2) by auto
    moreover have "infos h' ?n = infos h r"
    proof -
      from copy_infos_preserves [OF rec]
      have "\<forall>a < Suc ?n. infos h' a = infos ?h1 a"
        by simp
      then show ?thesis by simp
    qed
    ultimately show ?thesis
      using ih ns by simp
  qed
qed


text \<open>
  What the builder records when it does not append: a new operation whose dictionaries
  are equal to the caller's. (Appended, they are shifted, as in the example above.)
\<close>

lemma add_pulse_clone:
  assumes "\<not> valid_acquisition (operations h pulse)" "\<not> valid_gate (operations h pulse)"
    and "logic_info (operations h pulse) = []" "\<not> has_voltage_offset (operations h pulse)"
    and "\<forall>r \<in> set (op_pulse_info (operations h pulse)). r < next_addr h"
  shows "\<exists>c h'. add_pulse pulse False h b = (Inr (), h', b\<lparr>b_pulses := b_pulses b @ [c]\<rparr>)
    \<and> next_addr h \<le> c
    \<and> map (infos h') (op_pulse_info (operations h' c))
        = map (infos h) (op_pulse_info (operations h pulse))"
proof -
  obtain ns h0 where ci: "copy_infos h [] (op_pulse_info (operations h pulse)) = (ns, h0)"
    by (cases "copy_infos h [] (op_pulse_info (operations h pulse))")
  from copy_infos_content [OF ci assms(5)]
  have content: "map (infos h0) ns = map (infos h) (op_pulse_info (operations h pulse))"
    by simp
  from copy_infos_preserves [OF ci] have le: "next_addr h \<le> next_addr h0"
    by simp
  let ?h1 = "h0\<lparr>operations := (operations h0)
        (next_addr h0 := (operations h pulse)\<lparr>op_pulse_info := ns\<rparr>),
      next_addr := Suc (next_addr h0)\<rparr>"
  have dc: "deepcopy h pulse = (next_addr h0, ?h1)"
    using ci by (simp add: deepcopy_def Let_def)
  have "add_pulse pulse False h b
      = (Inr (), ?h1, b\<lparr>b_pulses := b_pulses b @ [next_addr h0]\<rparr>)"
    using assms(1-4) dc by (simp add: add_pulse_def)
  moreover have "map (infos ?h1) (op_pulse_info (operations ?h1 (next_addr h0)))
      = map (infos h) (op_pulse_info (operations h pulse))"
    using content by simp
  ultimately show ?thesis
    using le by blast
qed

subsection \<open>The reset stream\<close>

lemma reversed_reachable:
  "add_voltage_offset (1 / 4) 0 (Some 1) 0 False (4 / 10 ^ 9) empty_store
     (snd (add_voltage_offset (1 / 2) 0 (Some 1) 1 False (4 / 10 ^ 9) empty_store
        (new_builder (Some ''q0:mw'') (Some ''q0.01'') 0)))
   = (Inr (), reversed_offsets)"
  by (simp add: add_voltage_offset_def overlaps_with_existing_offsets_def new_builder_def
      reversed_offsets_def this_end_def duration_or_zero_def)

lemma reversed_end: "operation_end empty_store reversed_offsets = Inr 2"
  by (simp add: operation_end_def reversed_offsets_def new_builder_def py_max_def
      duration_or_zero_def)

lemma reversed_fields:
  "b_offsets reversed_offsets =
     [\<lparr>path_0 = 1 / 2, path_1 = 0, t0 = 1, duration = Some 1\<rparr>,
      \<lparr>path_0 = 1 / 4, path_1 = 0, t0 = 0, duration = Some 1\<rparr>]"
  "b_port reversed_offsets = Some ''q0:mw''"
  "b_clock reversed_offsets = Some ''q0.01''"
  by (simp_all add: reversed_offsets_def new_builder_def)

lemma reversed_code:
  "build_voltage_offset_operations empty_store reversed_offsets
     = Inr [offset_op (1 / 4) 0, reset_op 1, offset_op (1 / 2) 1, reset_op 2]"
  by (simp add: build_voltage_offset_operations_def reversed_fields reversed_end Let_def
      create_operation_from_info_def duration_or_zero_def isclose_def reset_op_def
      offset_op_def)

lemma reversed_spec:
  "spec_reset_stream (=) 2 reversed_offsets
     = [offset_op (1 / 4) 0, offset_op (1 / 2) 1, reset_op 2]"
  by (simp add: spec_reset_stream_def reversed_fields Let_def
      create_operation_from_info_def duration_or_zero_def reset_op_def offset_op_def)

lemma reversed_spec_isclose:
  "spec_reset_stream isclose 2 reversed_offsets
     = [offset_op (1 / 4) 0, offset_op (1 / 2) 1, reset_op 2]"
  by (simp add: spec_reset_stream_def reversed_fields Let_def
      create_operation_from_info_def duration_or_zero_def reset_op_def offset_op_def isclose_def)

text \<open>
  Claim C3 does not hold of the code. Two offsets of one second each are added with
  \<^verbatim>\<open>append=False\<close>, the one that starts at 1 before the one that starts at 0; both
  additions succeed. The two segments are contiguous, yet the code inserts a reset at
  time 1 between them: the successor is read from the builder's list in the order of
  insertion, at the index of the sorted list. The stream as the claim describes it has
  no reset between the two, whether times are compared exactly or with \<open>isclose\<close>.
\<close>

theorem build_voltage_offset_operations_reversed:
  "add_voltage_offset (1 / 4) 0 (Some 1) 0 False (4 / 10 ^ 9) empty_store
     (snd (add_voltage_offset (1 / 2) 0 (Some 1) 1 False (4 / 10 ^ 9) empty_store
        (new_builder (Some ''q0:mw'') (Some ''q0.01'') 0)))
     = (Inr (), reversed_offsets)
   \<and> operation_end empty_store reversed_offsets = Inr 2
   \<and> build_voltage_offset_operations empty_store reversed_offsets
       = Inr [offset_op (1 / 4) 0, reset_op 1, offset_op (1 / 2) 1, reset_op 2]
   \<and> spec_reset_stream (=) 2 reversed_offsets
       = [offset_op (1 / 4) 0, offset_op (1 / 2) 1, reset_op 2]
   \<and> spec_reset_stream isclose 2 reversed_offsets
       = [offset_op (1 / 4) 0, offset_op (1 / 2) 1, reset_op 2]"
  using reversed_reachable reversed_end reversed_code reversed_spec reversed_spec_isclose
  by simp

text \<open>
  When the offsets were added in ascending order of start time, the sorted list is the
  builder's list and the code computes the stream of the specification, with \<open>isclose\<close>
  as the comparison of times and of background values.
\<close>

lemma duration_or_zero_Some: "duration_or_zero (Some d) = d"
  by (simp add: duration_or_zero_def)

lemma build_loop_in_order:
  assumes "operation_end h b = Inr oe"
  shows "rest = drop i (b_offsets b) \<Longrightarrow>
    build_loop h b i rest bg ops = Inr (spec_reset_loop isclose oe b rest bg ops)"
proof (induction rest arbitrary: i bg ops)
  case Nil
  then show ?case by simp
next
  case (Cons seg rest)
  from Cons.prems have i: "i < length (b_offsets b)"
    by (metis drop_eq_Nil list.distinct(1) not_le)
  from Cons.prems have rest: "rest = drop (i + 1) (b_offsets b)"
    by (metis Suc_eq_plus1 drop_Suc tl_drop list.sel(3))
  have nxt: "(i + 1 \<ge> length (b_offsets b) \<or> \<not> isclose (t0 (b_offsets b ! (i + 1))) e)
      = (case rest of [] \<Rightarrow> True | nxt # rest1 \<Rightarrow> \<not> isclose (t0 nxt) e)" for e
  proof (cases rest)
    case Nil
    with rest show ?thesis by simp
  next
    case (Cons nxt rest1)
    with rest have "i + 1 < length (b_offsets b)" "b_offsets b ! (i + 1) = nxt"
      by (metis drop_eq_Nil list.distinct(1) not_le, metis nth_via_drop)
    with Cons show ?thesis by simp
  qed
  show ?case
  proof (cases "duration seg")
    case None
    with Cons.IH [OF rest] show ?thesis by simp
  next
    case (Some d)
    with Cons.IH [OF rest] assms nxt show ?thesis
      by (simp add: Let_def duration_or_zero_Some)
  qed
qed

lemma build_voltage_offset_operations_in_order:
  assumes "operation_end h b = Inr oe" "sort_key t0 (b_offsets b) = b_offsets b"
  shows "build_voltage_offset_operations h b = Inr (spec_reset_stream isclose oe b)"
proof (cases "b_offsets b = []")
  case True
  then show ?thesis
    by (simp add: build_voltage_offset_operations_def spec_reset_stream_def isclose_def)
next
  case False
  have "build_loop h b 0 (b_offsets b) (0, 0) []
      = Inr (spec_reset_loop isclose oe b (b_offsets b) (0, 0) [])"
    using assms(1) by (rule build_loop_in_order) simp
  with False assms show ?thesis
    by (simp add: build_voltage_offset_operations_def spec_reset_stream_def split: prod.splits)
qed

text \<open>
  The default tolerances of \<open>isclose\<close> are those of numbers near one; times here are
  nanoseconds. Two offsets of 4 ns that are 4 ns apart, added in order: the code finds
  the start of the second close to the end of the first and inserts no reset in the gap,
  where an exact comparison of the times inserts one.
\<close>

lemma gap_fields:
  "b_offsets gap_offsets =
     [\<lparr>path_0 = 1 / 2, path_1 = 0, t0 = 0, duration = Some (4 / 10 ^ 9)\<rparr>,
      \<lparr>path_0 = 1 / 4, path_1 = 0, t0 = 8 / 10 ^ 9, duration = Some (4 / 10 ^ 9)\<rparr>]"
  "b_port gap_offsets = Some ''q0:mw''"
  "b_clock gap_offsets = Some ''q0.01''"
  by (simp_all add: gap_offsets_def new_builder_def)

lemma gap_end: "operation_end empty_store gap_offsets = Inr (12 / 10 ^ 9)"
  by (simp add: operation_end_def gap_offsets_def new_builder_def py_max_def
      duration_or_zero_def)

lemma build_voltage_offset_operations_gap:
  "build_voltage_offset_operations empty_store gap_offsets
     = Inr [\<lparr>offset_path_0 = 1 / 2, offset_path_1 = 0, vo_duration = 4 / 10 ^ 9,
             vo_port = Some ''q0:mw'', vo_clock = Some ''q0.01'', vo_t0 = 0\<rparr>,
            \<lparr>offset_path_0 = 1 / 4, offset_path_1 = 0, vo_duration = 4 / 10 ^ 9,
             vo_port = Some ''q0:mw'', vo_clock = Some ''q0.01'', vo_t0 = 8 / 10 ^ 9\<rparr>,
            reset_op (12 / 10 ^ 9)]"
  "spec_reset_stream (=) (12 / 10 ^ 9) gap_offsets
     = [\<lparr>offset_path_0 = 1 / 2, offset_path_1 = 0, vo_duration = 4 / 10 ^ 9,
         vo_port = Some ''q0:mw'', vo_clock = Some ''q0.01'', vo_t0 = 0\<rparr>,
        reset_op (4 / 10 ^ 9),
        \<lparr>offset_path_0 = 1 / 4, offset_path_1 = 0, vo_duration = 4 / 10 ^ 9,
         vo_port = Some ''q0:mw'', vo_clock = Some ''q0.01'', vo_t0 = 8 / 10 ^ 9\<rparr>,
        reset_op (12 / 10 ^ 9)]"
  by (simp_all add: build_voltage_offset_operations_def spec_reset_stream_def gap_fields
      gap_end Let_def create_operation_from_info_def duration_or_zero_def isclose_def
      reset_op_def)

end
